theory Spec2Isabelle
  imports Main "HOL-Library.Word"
begin

section \<open>The filrewards service (api/filrewardsd/service/service.go)\<close>

text \<open>
  A shallow embedding of the reward and claim ledgers of \<^verbatim>\<open>service.go\<close>. Handlers are
  functions of the service state; a handler that writes returns the new state beside its
  result. A gRPC status, a Go error and a panic are values of \<open>err\<close>. Each handler runs
  under the per-organization semaphore in the source, so a call is modelled as one step;
  the best-effort \<^verbatim>\<open>s.ac.Track\<close> call changes neither the result nor the state and
  is left out.
\<close>

subsection \<open>Data model\<close>

type_synonym int32 = "32 word"

text \<open>Creation times, in the milliseconds a BSON date stores.\<close>

type_synonym time = int

text \<open>
  \<^verbatim>\<open>pb.RewardType\<close> is declared outside \<^verbatim>\<open>service.go\<close>; these are the members the
  file names.
\<close>

datatype RewardType =
    REWARD_TYPE_UNSPECIFIED
  | REWARD_TYPE_FIRST_KEY_ACCOUNT_CREATED
  | REWARD_TYPE_FIRST_KEY_USER_CREATED
  | REWARD_TYPE_FIRST_ORG_CREATED
  | REWARD_TYPE_INITIAL_BILLING_SETUP
  | REWARD_TYPE_FIRST_BUCKET_CREATED
  | REWARD_TYPE_FIRST_BUCKET_ARCHIVE_CREATED
  | REWARD_TYPE_FIRST_MAILBOX_CREATED
  | REWARD_TYPE_FIRST_THREAD_DB_CREATED

text \<open>
  \<^verbatim>\<open>analyticspb.Event\<close> is declared outside \<^verbatim>\<open>service.go\<close> as well; the
  constructors are the members the file names, and \<open>EVENT_OTHER\<close> stands for every
  other member of the enumeration.
\<close>

datatype Event =
    EVENT_UNSPECIFIED
  | EVENT_KEY_ACCOUNT_CREATED
  | EVENT_KEY_USER_CREATED
  | EVENT_ORG_CREATED
  | EVENT_BILLING_SETUP
  | EVENT_BUCKET_CREATED
  | EVENT_BUCKET_ARCHIVE_CREATED
  | EVENT_MAILBOX_CREATED
  | EVENT_THREAD_DB_CREATED
  | EVENT_FIL_REWARD
  | EVENT_FIL_CLAIM
  | EVENT_OTHER nat

datatype err =
    InvalidArgument   \<comment> \<open>\<^verbatim>\<open>codes.InvalidArgument\<close>\<close>
  | Internal          \<comment> \<open>\<^verbatim>\<open>codes.Internal\<close>\<close>
  | StoreError        \<comment> \<open>the driver returned an error (connection, timeout)\<close>
  | DuplicateKey      \<comment> \<open>a unique index refused the insert\<close>
  | NoTotalFound      \<comment> \<open>\<^verbatim>\<open>no total ... calculation found\<close>\<close>
  | Panic             \<comment> \<open>a Go runtime panic\<close>

record meta =
  factor :: int32

text \<open>The table \<^verbatim>\<open>rewardTypeMeta\<close>; a type without an entry is a missing key.\<close>

fun rewardTypeMeta :: "RewardType \<Rightarrow> meta option" where
  "rewardTypeMeta REWARD_TYPE_FIRST_KEY_ACCOUNT_CREATED = Some \<lparr>factor = 3\<rparr>"
| "rewardTypeMeta REWARD_TYPE_FIRST_KEY_USER_CREATED = Some \<lparr>factor = 1\<rparr>"
| "rewardTypeMeta REWARD_TYPE_FIRST_ORG_CREATED = Some \<lparr>factor = 3\<rparr>"
| "rewardTypeMeta REWARD_TYPE_INITIAL_BILLING_SETUP = Some \<lparr>factor = 1\<rparr>"
| "rewardTypeMeta REWARD_TYPE_FIRST_BUCKET_CREATED = Some \<lparr>factor = 2\<rparr>"
| "rewardTypeMeta REWARD_TYPE_FIRST_BUCKET_ARCHIVE_CREATED = Some \<lparr>factor = 2\<rparr>"
| "rewardTypeMeta REWARD_TYPE_FIRST_MAILBOX_CREATED = Some \<lparr>factor = 1\<rparr>"
| "rewardTypeMeta REWARD_TYPE_FIRST_THREAD_DB_CREATED = Some \<lparr>factor = 1\<rparr>"
| "rewardTypeMeta REWARD_TYPE_UNSPECIFIED = None"

text \<open>
  \<^verbatim>\<open>rewardTypeMeta[t].factor\<close>: indexing a Go map at a missing key gives the zero
  \<^verbatim>\<open>meta\<close>.
\<close>

definition meta_factor :: "RewardType \<Rightarrow> int32" where
  "meta_factor t = (case rewardTypeMeta t of None \<Rightarrow> 0 | Some m \<Rightarrow> factor m)"

text \<open>
  The structs \<^verbatim>\<open>reward\<close> and \<^verbatim>\<open>claim\<close>. Several structs of the source share
  field names (\<^verbatim>\<open>OrgKey\<close>, \<^verbatim>\<open>CreatedAt\<close>); a prefix keeps the fields of each record
  apart: \<open>r_\<close> for \<^verbatim>\<open>reward\<close>, \<open>c_\<close> for \<^verbatim>\<open>claim\<close>, \<open>pbr_\<close> and \<open>pbc_\<close> for
  \<^verbatim>\<open>pb.Reward\<close> and \<^verbatim>\<open>pb.Claim\<close>, and one prefix for each request and response.
\<close>

record reward =
  r_OrgKey :: string
  r_DevKey :: string
  r_Type :: RewardType
  r_Factor :: int32
  r_BaseAttoFILReward :: int32
  r_CreatedAt :: time

record claim =
  c_OrgKey :: string
  c_ClaimedBy :: string
  c_Amount :: int32
  c_CreatedAt :: time

record pb_Reward =
  pbr_OrgKey :: string
  pbr_DevKey :: string
  pbr_Type :: RewardType
  pbr_Factor :: int32
  pbr_BaseAttoFilReward :: int32
  pbr_CreatedAt :: time

record pb_Claim =
  pbc_OrgKey :: string
  pbc_ClaimedBy :: string
  pbc_Amount :: int32
  pbc_CreatedAt :: time

definition toPbReward :: "reward \<Rightarrow> pb_Reward" where
  "toPbReward rec =
     \<lparr>pbr_OrgKey = r_OrgKey rec, pbr_DevKey = r_DevKey rec, pbr_Type = r_Type rec,
      pbr_Factor = r_Factor rec, pbr_BaseAttoFilReward = r_BaseAttoFILReward rec,
      pbr_CreatedAt = r_CreatedAt rec\<rparr>"

definition toPbClaim :: "claim \<Rightarrow> pb_Claim" where
  "toPbClaim rec =
     \<lparr>pbc_OrgKey = c_OrgKey rec, pbc_ClaimedBy = c_ClaimedBy rec, pbc_Amount = c_Amount rec,
      pbc_CreatedAt = c_CreatedAt rec\<rparr>"

record ProcessAnalyticsEventRequest =
  pe_OrgKey :: string
  pe_DevKey :: string
  pe_AnalyticsEvent :: Event

record ListRewardsRequest =
  lr_OrgKeyFilter :: string
  lr_DevKeyFilter :: string
  lr_RewardTypeFilter :: RewardType
  lr_Ascending :: bool
  lr_StartAt :: "time option"
  lr_Limit :: int

record ListRewardsResponse =
  lr_Rewards :: "pb_Reward list"
  lr_More :: bool
  lr_MoreStartAt :: "time option"

record ClaimRequest =
  cq_OrgKey :: string
  cq_ClaimedBy :: string
  cq_Amount :: int32

record ListClaimsRequest =
  lc_OrgKeyFilter :: string
  lc_ClaimedByFilter :: string
  lc_Ascending :: bool
  lc_StartAt :: "time option"
  lc_Limit :: int

record ListClaimsResponse =
  lc_Claims :: "pb_Claim list"
  lc_More :: bool
  lc_MoreStartAt :: "time option"

record BalanceRequest =
  bq_OrgKey :: string

record BalanceResponse =
  b_Rewarded :: int32
  b_Claimed :: int32
  b_Available :: int32

subsection \<open>The store\<close>

text \<open>
  The two Mongo collections, each a list of documents in insertion order. \<open>reads_ok\<close>
  and \<open>writes_ok\<close> say whether the driver answers a query and accepts a write; when one
  is false the driver call returns an error, the branch \<^verbatim>\<open>err != nil\<close> of the source.
\<close>

record store =
  rewardsCol :: "reward list"
  claimsCol :: "claim list"
  reads_ok :: bool
  writes_ok :: bool

type_synonym cache = "string \<rightharpoonup> RewardType set"

record Service =
  db :: store
  rewardsCacheOrg :: cache
  rewardsCacheDev :: cache
  baseAttoFILReward :: int32

record Config =
  BaseAttoFILReward :: int32

text \<open>
  \<^verbatim>\<open>InsertOne\<close> on the rewards collection. The two unique partial indexes created in
  \<^verbatim>\<open>New\<close> refuse a document whose non-empty \<^verbatim>\<open>org_key\<close> (or non-empty
  \<^verbatim>\<open>dev_key\<close>) and \<^verbatim>\<open>type\<close> are those of a stored document.
\<close>

definition rewards_InsertOne :: "store \<Rightarrow> reward \<Rightarrow> err + store" where
  "rewards_InsertOne d r =
     (if \<not> writes_ok d then Inl StoreError
      else if r_OrgKey r \<noteq> [] \<and> (\<exists>x \<in> set (rewardsCol d). r_OrgKey x = r_OrgKey r \<and> r_Type x = r_Type r)
        then Inl DuplicateKey
      else if r_DevKey r \<noteq> [] \<and> (\<exists>x \<in> set (rewardsCol d). r_DevKey x = r_DevKey r \<and> r_Type x = r_Type r)
        then Inl DuplicateKey
      else Inr (d\<lparr>rewardsCol := rewardsCol d @ [r]\<rparr>))"

text \<open>\<^verbatim>\<open>InsertOne\<close> on the claims collection, which has no index but \<^verbatim>\<open>_id\<close>.\<close>

definition claims_InsertOne :: "store \<Rightarrow> claim \<Rightarrow> err + store" where
  "claims_InsertOne d c =
     (if \<not> writes_ok d then Inl StoreError
      else Inr (d\<lparr>claimsCol := claimsCol d @ [c]\<rparr>))"

subsection \<open>Aggregation\<close>

text \<open>
  The values an aggregation pipeline computes with. Mongo keeps a product or a sum of
  32-bit integers as a 32-bit integer while it fits and turns it into a 64-bit integer
  when it does not; a missing field is null. (A 64-bit sum turns into a double when it
  overflows in turn, which more than \<open>2 ^ 32\<close> documents of 32-bit fields would need;
  the model leaves that out.)
\<close>

datatype bson_num = BNull | BInt32 int32 | BInt64 int

fun bson_int :: "bson_num \<Rightarrow> int option" where
  "bson_int BNull = None"
| "bson_int (BInt32 w) = Some (sint w)"
| "bson_int (BInt64 n) = Some n"

fun is_int64 :: "bson_num \<Rightarrow> bool" where
  "is_int64 (BInt64 n) = True"
| "is_int64 v = False"

definition fits_int32 :: "int \<Rightarrow> bool" where
  "fits_int32 n \<longleftrightarrow> - (2 ^ 31) \<le> n \<and> n < 2 ^ 31"

definition int_or_long :: "bool \<Rightarrow> int \<Rightarrow> bson_num" where
  "int_or_long long n = (if \<not> long \<and> fits_int32 n then BInt32 (word_of_int n) else BInt64 n)"

text \<open>\<^verbatim>\<open>$multiply\<close>: null when an operand is null or missing.\<close>

definition mongo_multiply :: "bson_num \<Rightarrow> bson_num \<Rightarrow> bson_num" where
  "mongo_multiply a b =
     (case bson_int a of None \<Rightarrow> BNull
      | Some x \<Rightarrow> (case bson_int b of None \<Rightarrow> BNull
          | Some y \<Rightarrow> int_or_long (is_int64 a \<or> is_int64 b) (x * y)))"

text \<open>\<^verbatim>\<open>$sum\<close>: values that are not numbers are skipped; no number at all gives 0.\<close>

definition mongo_sum :: "bson_num list \<Rightarrow> bson_num" where
  "mongo_sum vs =
     int_or_long (list_ex is_int64 vs)
       (sum_list (map (\<lambda>v. case bson_int v of None \<Rightarrow> 0 | Some n \<Rightarrow> n) vs))"

text \<open>
  \<^verbatim>\<open>$group\<close> with \<^verbatim>\<open>_id: nil\<close> and one accumulator \<^verbatim>\<open>total\<close>: one output document
  for the single group, and no document when no input document reaches the stage.
\<close>

definition mongo_group_total :: "bson_num list \<Rightarrow> bson_num option" where
  "mongo_group_total vs = (if vs = [] then None else Some (mongo_sum vs))"

text \<open>\<^verbatim>\<open>e.Value().Int32()\<close> panics when the value is not a 32-bit integer.\<close>

fun bson_Int32 :: "bson_num \<Rightarrow> err + int32" where
  "bson_Int32 (BInt32 w) = Inr w"
| "bson_Int32 v = Inl Panic"

text \<open>
  The numeric fields of a stored \<^verbatim>\<open>reward\<close> document by their BSON names, as the
  pipelines read them. The document has no field \<^verbatim>\<open>amount\<close>. (\<^verbatim>\<open>type\<close> is stored
  as a number too; no pipeline reads it.)
\<close>

definition reward_field :: "string \<Rightarrow> reward \<Rightarrow> bson_num" where
  "reward_field name r =
     (if name = ''factor'' then BInt32 (r_Factor r)
      else if name = ''base_atto_fil_reward'' then BInt32 (r_BaseAttoFILReward r)
      else BNull)"

definition totalRewarded :: "store \<Rightarrow> string \<Rightarrow> err + int32" where
  "totalRewarded d orgKey =
     (if \<not> reads_ok d then Inl StoreError
      else case mongo_group_total
             (map (\<lambda>r. mongo_multiply (reward_field ''factor'' r) (reward_field ''base_atto_fil_reward'' r))
               (filter (\<lambda>r. r_OrgKey r = orgKey) (rewardsCol d))) of
          None \<Rightarrow> Inl NoTotalFound
        | Some v \<Rightarrow> bson_Int32 v)"

text \<open>The pipeline of \<^verbatim>\<open>totalClaimed\<close> runs on \<^verbatim>\<open>s.rewardsCol\<close>, as in the source.\<close>

definition totalClaimed :: "store \<Rightarrow> string \<Rightarrow> err + int32" where
  "totalClaimed d orgKey =
     (if \<not> reads_ok d then Inl StoreError
      else case mongo_group_total
             (map (\<lambda>r. reward_field ''amount'' r)
               (filter (\<lambda>r. r_OrgKey r = orgKey) (rewardsCol d))) of
          None \<Rightarrow> Inl NoTotalFound
        | Some v \<Rightarrow> bson_Int32 v)"

text \<open>
  An error of an aggregation becomes \<^verbatim>\<open>codes.Internal\<close> in \<^verbatim>\<open>Claim\<close> and
  \<^verbatim>\<open>Balance\<close>; a panic is not an error value and passes through.
\<close>

fun as_internal :: "err \<Rightarrow> err" where
  "as_internal Panic = Panic"
| "as_internal e = Internal"

definition Balance :: "Service \<Rightarrow> BalanceRequest \<Rightarrow> err + BalanceResponse" where
  "Balance s req =
     (case totalRewarded (db s) (bq_OrgKey req) of
        Inl e \<Rightarrow> Inl (as_internal e)
      | Inr totalRewarded' \<Rightarrow>
          (case totalClaimed (db s) (bq_OrgKey req) of
             Inl e \<Rightarrow> Inl (as_internal e)
           | Inr totalClaimed' \<Rightarrow>
               Inr \<lparr>b_Rewarded = totalRewarded', b_Claimed = totalClaimed',
                    b_Available = totalRewarded' - totalClaimed'\<rparr>))"

text \<open>\<^verbatim>\<open>Claim\<close>; \<open>now\<close> is the value of \<^verbatim>\<open>time.Now()\<close>.\<close>

definition Claim :: "Service \<Rightarrow> ClaimRequest \<Rightarrow> time \<Rightarrow> (err + unit) \<times> Service" where
  "Claim s req now =
     (case totalRewarded (db s) (cq_OrgKey req) of
        Inl e \<Rightarrow> (Inl (as_internal e), s)
      | Inr totalRewarded' \<Rightarrow>
          (case totalClaimed (db s) (cq_OrgKey req) of
             Inl e \<Rightarrow> (Inl (as_internal e), s)
           | Inr totalClaimed' \<Rightarrow>
               (let available = totalRewarded' - totalClaimed' in
                if sint available < sint (cq_Amount req) then (Inl InvalidArgument, s)
                else
                  (case claims_InsertOne (db s)
                          \<lparr>c_OrgKey = cq_OrgKey req, c_ClaimedBy = cq_ClaimedBy req,
                           c_Amount = cq_Amount req, c_CreatedAt = now\<rparr> of
                     Inl e \<Rightarrow> (Inl Internal, s)
                   | Inr d \<Rightarrow> (Inr (), s\<lparr>db := d\<rparr>)))))"

text \<open>The sums the specification words: over the ledger a total is about, as integers.\<close>

definition spec_rewarded :: "store \<Rightarrow> string \<Rightarrow> int" where
  "spec_rewarded d k =
     sum_list (map (\<lambda>r. sint (r_Factor r) * sint (r_BaseAttoFILReward r))
       (filter (\<lambda>r. r_OrgKey r = k) (rewardsCol d)))"

definition spec_claimed :: "store \<Rightarrow> string \<Rightarrow> int" where
  "spec_claimed d k =
     sum_list (map (\<lambda>c. sint (c_Amount c)) (filter (\<lambda>c. c_OrgKey c = k) (claimsCol d)))"

subsection \<open>The idempotency cache\<close>

definition ensureKeyRewardCache :: "cache \<Rightarrow> string \<Rightarrow> cache" where
  "ensureKeyRewardCache keyCache key =
     (if keyCache key = None then keyCache(key \<mapsto> {}) else keyCache)"

text \<open>
  \<^verbatim>\<open>keyCache[key][t] = struct{}{}\<close>. Indexing the outer map at a missing key gives the
  nil inner map, and an assignment to an entry of a nil map panics.
\<close>

definition set_granted :: "cache \<Rightarrow> string \<Rightarrow> RewardType \<Rightarrow> err + cache" where
  "set_granted keyCache key t =
     (case keyCache key of
        None \<Rightarrow> Inl Panic
      | Some ts \<Rightarrow> Inr (keyCache(key \<mapsto> insert t ts)))"

text \<open>\<^verbatim>\<open>_, exists := keyCache[key][t]\<close>; reading a nil map finds nothing.\<close>

definition granted :: "cache \<Rightarrow> string \<Rightarrow> RewardType \<Rightarrow> bool" where
  "granted keyCache key t = (case keyCache key of None \<Rightarrow> False | Some ts \<Rightarrow> t \<in> ts)"

text \<open>
  The loop of \<^verbatim>\<open>New\<close> that populates the caches from the cursor over all rewards.
  Both assignments of its body go to \<^verbatim>\<open>cacheOrg\<close>, as in the source.
\<close>

fun seed :: "reward list \<Rightarrow> cache \<Rightarrow> cache \<Rightarrow> err + cache \<times> cache" where
  "seed [] cacheOrg cacheDev = Inr (cacheOrg, cacheDev)"
| "seed (rec # rest) cacheOrg cacheDev =
     (let cacheOrg1 = ensureKeyRewardCache cacheOrg (r_OrgKey rec);
          cacheDev1 = ensureKeyRewardCache cacheDev (r_DevKey rec)
      in case set_granted cacheOrg1 (r_OrgKey rec) (r_Type rec) of
           Inl e \<Rightarrow> Inl e
         | Inr cacheOrg2 \<Rightarrow>
             (case set_granted cacheOrg2 (r_DevKey rec) (r_Type rec) of
                Inl e \<Rightarrow> Inl e
              | Inr cacheOrg3 \<Rightarrow> seed rest cacheOrg3 cacheDev1))"

text \<open>
  \<^verbatim>\<open>New\<close>, from the store it connects to: the query over all rewards, the cache
  loop and the service value. Logging, the index creation, the analytics client and the
  gRPC server are outside the model.
\<close>

definition New :: "Config \<Rightarrow> store \<Rightarrow> err + Service" where
  "New config d =
     (if \<not> reads_ok d then Inl StoreError
      else case seed (rewardsCol d) Map.empty Map.empty of
          Inl e \<Rightarrow> Inl e
        | Inr (cacheOrg, cacheDev) \<Rightarrow>
            Inr \<lparr>db = d, rewardsCacheOrg = cacheOrg, rewardsCacheDev = cacheDev,
                 baseAttoFILReward = BaseAttoFILReward config\<rparr>)"

subsection \<open>Granting a reward\<close>

text \<open>The \<^verbatim>\<open>switch\<close> of \<^verbatim>\<open>ProcessAnalyticsEvent\<close>.\<close>

fun event_reward_type :: "Event \<Rightarrow> RewardType" where
  "event_reward_type EVENT_KEY_ACCOUNT_CREATED = REWARD_TYPE_FIRST_KEY_ACCOUNT_CREATED"
| "event_reward_type EVENT_KEY_USER_CREATED = REWARD_TYPE_FIRST_KEY_USER_CREATED"
| "event_reward_type EVENT_ORG_CREATED = REWARD_TYPE_FIRST_ORG_CREATED"
| "event_reward_type EVENT_BILLING_SETUP = REWARD_TYPE_INITIAL_BILLING_SETUP"
| "event_reward_type EVENT_BUCKET_CREATED = REWARD_TYPE_FIRST_BUCKET_CREATED"
| "event_reward_type EVENT_BUCKET_ARCHIVE_CREATED = REWARD_TYPE_FIRST_BUCKET_ARCHIVE_CREATED"
| "event_reward_type EVENT_MAILBOX_CREATED = REWARD_TYPE_FIRST_MAILBOX_CREATED"
| "event_reward_type EVENT_THREAD_DB_CREATED = REWARD_TYPE_FIRST_THREAD_DB_CREATED"
| "event_reward_type e = REWARD_TYPE_UNSPECIFIED"

text \<open>
  \<^verbatim>\<open>ProcessAnalyticsEvent\<close>; \<open>now\<close> is the value of \<^verbatim>\<open>time.Now()\<close>. The empty
  response is \<open>Inr None\<close>, a response with a reward is \<open>Inr (Some r)\<close>.
\<close>

definition ProcessAnalyticsEvent ::
    "Service \<Rightarrow> ProcessAnalyticsEventRequest \<Rightarrow> time \<Rightarrow> (err + pb_Reward option) \<times> Service" where
  "ProcessAnalyticsEvent s req now =
     (if pe_OrgKey req = [] then (Inl InvalidArgument, s)
      else if pe_AnalyticsEvent req = EVENT_UNSPECIFIED then (Inl InvalidArgument, s)
      else
        (let t = event_reward_type (pe_AnalyticsEvent req) in
         if t = REWARD_TYPE_UNSPECIFIED then (Inr None, s)
         else
           (let s1 = s\<lparr>rewardsCacheOrg := ensureKeyRewardCache (rewardsCacheOrg s) (pe_OrgKey req),
                       rewardsCacheDev := ensureKeyRewardCache (rewardsCacheDev s) (pe_DevKey req)\<rparr>
            in if granted (rewardsCacheOrg s1) (pe_OrgKey req) t then (Inr None, s1)
               else if granted (rewardsCacheDev s1) (pe_DevKey req) t then (Inr None, s1)
               else
                 (let r = \<lparr>r_OrgKey = pe_OrgKey req, r_DevKey = pe_DevKey req, r_Type = t,
                           r_Factor = meta_factor t,
                           r_BaseAttoFILReward = baseAttoFILReward s1, r_CreatedAt = now\<rparr>
                  in case rewards_InsertOne (db s1) r of
                       Inl e \<Rightarrow> (Inl Internal, s1)
                     | Inr d \<Rightarrow>
                         (case set_granted (rewardsCacheOrg s1) (pe_OrgKey req) t of
                            Inl e \<Rightarrow> (Inl e, s1\<lparr>db := d\<rparr>)
                          | Inr cacheOrg \<Rightarrow>
                              (case set_granted (rewardsCacheDev s1) (pe_DevKey req) t of
                                 Inl e \<Rightarrow> (Inl e, s1\<lparr>db := d, rewardsCacheOrg := cacheOrg\<rparr>)
                               | Inr cacheDev \<Rightarrow>
                                   (Inr (Some (toPbReward r)),
                                    s1\<lparr>db := d, rewardsCacheOrg := cacheOrg,
                                       rewardsCacheDev := cacheDev\<rparr>)))))))"

subsection \<open>Listing\<close>

text \<open>
  A query filter is the \<^verbatim>\<open>bson.M\<close> the handler builds: an entry per field that is
  set, and at most one comparison on \<^verbatim>\<open>created_at\<close>, which the probe overwrites.
\<close>

datatype comparison = Lt | Gt

fun created_at_matches :: "(comparison \<times> time) option \<Rightarrow> time \<Rightarrow> bool" where
  "created_at_matches None x = True"
| "created_at_matches (Some (Lt, t)) x = (x < t)"
| "created_at_matches (Some (Gt, t)) x = (t < x)"

record rewards_filter =
  f_org_key :: "string option"
  f_dev_key :: "string option"
  f_type :: "RewardType option"
  f_created_at :: "(comparison \<times> time) option"

record claims_filter =
  g_org_key :: "string option"
  g_claimed_by :: "string option"
  g_created_at :: "(comparison \<times> time) option"

definition reward_matches :: "rewards_filter \<Rightarrow> reward \<Rightarrow> bool" where
  "reward_matches f r \<longleftrightarrow>
     (case f_org_key f of None \<Rightarrow> True | Some k \<Rightarrow> r_OrgKey r = k) \<and>
     (case f_dev_key f of None \<Rightarrow> True | Some k \<Rightarrow> r_DevKey r = k) \<and>
     (case f_type f of None \<Rightarrow> True | Some t \<Rightarrow> r_Type r = t) \<and>
     created_at_matches (f_created_at f) (r_CreatedAt r)"

definition claim_matches :: "claims_filter \<Rightarrow> claim \<Rightarrow> bool" where
  "claim_matches f c \<longleftrightarrow>
     (case g_org_key f of None \<Rightarrow> True | Some k \<Rightarrow> c_OrgKey c = k) \<and>
     (case g_claimed_by f of None \<Rightarrow> True | Some k \<Rightarrow> c_ClaimedBy c = k) \<and>
     created_at_matches (g_created_at f) (c_CreatedAt c)"

text \<open>
  \<^verbatim>\<open>Find\<close> with a sort on \<^verbatim>\<open>created_at\<close> (1 ascending, -1 descending) and an
  optional limit. Mongo leaves the order of documents with equal sort keys open; the
  model keeps them in insertion order.
\<close>

definition mongo_sort :: "('a \<Rightarrow> time) \<Rightarrow> int \<Rightarrow> 'a list \<Rightarrow> 'a list" where
  "mongo_sort created_at dir xs =
     (if dir = 1 then sort_key created_at xs else sort_key (\<lambda>x. - created_at x) xs)"

definition mongo_Find ::
    "('a \<Rightarrow> bool) \<Rightarrow> ('a \<Rightarrow> time) \<Rightarrow> int \<Rightarrow> int option \<Rightarrow> 'a list \<Rightarrow> 'a list" where
  "mongo_Find matches created_at dir limit col =
     (let sorted = mongo_sort created_at dir (filter matches col)
      in case limit of None \<Rightarrow> sorted | Some n \<Rightarrow> take (nat n) sorted)"

text \<open>\<^verbatim>\<open>FindOne\<close>: a matching document, or \<^verbatim>\<open>mongo.ErrNoDocuments\<close>.\<close>

definition mongo_FindOne :: "('a \<Rightarrow> bool) \<Rightarrow> 'a list \<Rightarrow> 'a option" where
  "mongo_FindOne matches col = find matches col"

definition ListRewards :: "Service \<Rightarrow> ListRewardsRequest \<Rightarrow> err + ListRewardsResponse" where
  "ListRewards s req =
     (let limit = (if 0 < lr_Limit req then Some (lr_Limit req) else None);
          dir = (if lr_Ascending req then 1 else - 1);
          flt0 = \<lparr>f_org_key = (if lr_OrgKeyFilter req \<noteq> [] then Some (lr_OrgKeyFilter req) else None),
                  f_dev_key = (if lr_DevKeyFilter req \<noteq> [] then Some (lr_DevKeyFilter req) else None),
                  f_type = (if lr_RewardTypeFilter req \<noteq> REWARD_TYPE_UNSPECIFIED
                            then Some (lr_RewardTypeFilter req) else None),
                  f_created_at = None\<rparr>;
          comp = (if lr_StartAt req \<noteq> None \<and> lr_Ascending req then Gt else Lt);
          flt = (case lr_StartAt req of
                   None \<Rightarrow> flt0
                 | Some t \<Rightarrow> flt0\<lparr>f_created_at := Some (comp, t)\<rparr>)
      in if \<not> reads_ok (db s) then Inl Internal
         else
           (let rewards = mongo_Find (reward_matches flt) r_CreatedAt dir limit (rewardsCol (db s))
            in if rewards = []
               then Inr \<lparr>lr_Rewards = [], lr_More = False, lr_MoreStartAt = None\<rparr>
               else
                 (let lastCreatedAt = r_CreatedAt (last rewards)
                  in case mongo_FindOne
                            (reward_matches (flt\<lparr>f_created_at := Some (comp, lastCreatedAt)\<rparr>))
                            (rewardsCol (db s)) of
                       None \<Rightarrow>
                         Inr \<lparr>lr_Rewards = map toPbReward rewards, lr_More = False,
                              lr_MoreStartAt = None\<rparr>
                     | Some found \<Rightarrow>
                         Inr \<lparr>lr_Rewards = map toPbReward rewards, lr_More = True,
                              lr_MoreStartAt = Some lastCreatedAt\<rparr>)))"

definition ListClaims :: "Service \<Rightarrow> ListClaimsRequest \<Rightarrow> err + ListClaimsResponse" where
  "ListClaims s req =
     (let limit = (if 0 < lc_Limit req then Some (lc_Limit req) else None);
          dir = (if lc_Ascending req then 1 else - 1);
          flt0 = \<lparr>g_org_key = (if lc_OrgKeyFilter req \<noteq> [] then Some (lc_OrgKeyFilter req) else None),
                  g_claimed_by = (if lc_ClaimedByFilter req \<noteq> []
                                  then Some (lc_ClaimedByFilter req) else None),
                  g_created_at = None\<rparr>;
          comp = (if lc_StartAt req \<noteq> None \<and> lc_Ascending req then Gt else Lt);
          flt = (case lc_StartAt req of
                   None \<Rightarrow> flt0
                 | Some t \<Rightarrow> flt0\<lparr>g_created_at := Some (comp, t)\<rparr>)
      in if \<not> reads_ok (db s) then Inl Internal
         else
           (let claims = mongo_Find (claim_matches flt) c_CreatedAt dir limit (claimsCol (db s))
            in if claims = []
               then Inr \<lparr>lc_Claims = [], lc_More = False, lc_MoreStartAt = None\<rparr>
               else
                 (let lastCreatedAt = c_CreatedAt (last claims)
                  in case mongo_FindOne
                            (claim_matches (flt\<lparr>g_created_at := Some (comp, lastCreatedAt)\<rparr>))
                            (claimsCol (db s)) of
                       None \<Rightarrow>
                         Inr \<lparr>lc_Claims = map toPbClaim claims, lc_More = False,
                              lc_MoreStartAt = None\<rparr>
                     | Some found \<Rightarrow>
                         Inr \<lparr>lc_Claims = map toPbClaim claims, lc_More = True,
                              lc_MoreStartAt = Some lastCreatedAt\<rparr>)))"

subsection \<open>Following the cursor\<close>

text \<open>
  The client side of the pagination protocol: fetch a page at the cursor, and while the
  page says there is more, fetch again at the cursor it returned. The pages are
  concatenated. \<open>fuel\<close> bounds the number of requests; \<open>None\<close> is a failed request or
  no fuel left.
\<close>

fun follow_pages ::
    "nat \<Rightarrow> (time option \<Rightarrow> err + 'a list \<times> bool \<times> time option) \<Rightarrow> time option \<Rightarrow> 'a list option" where
  "follow_pages 0 page cursor = None"
| "follow_pages (Suc fuel) page cursor =
     (case page cursor of
        Inl e \<Rightarrow> None
      | Inr (items, more_data, nxt) \<Rightarrow>
          if more_data then map_option (\<lambda>rest. items @ rest) (follow_pages fuel page nxt)
          else Some items)"

definition ListRewards_page ::
    "Service \<Rightarrow> ListRewardsRequest \<Rightarrow> time option \<Rightarrow> err + pb_Reward list \<times> bool \<times> time option" where
  "ListRewards_page s req cursor =
     (case ListRewards s (req\<lparr>lr_StartAt := cursor\<rparr>) of
        Inl e \<Rightarrow> Inl e
      | Inr resp \<Rightarrow> Inr (lr_Rewards resp, lr_More resp, lr_MoreStartAt resp))"

definition ListClaims_page ::
    "Service \<Rightarrow> ListClaimsRequest \<Rightarrow> time option \<Rightarrow> err + pb_Claim list \<times> bool \<times> time option" where
  "ListClaims_page s req cursor =
     (case ListClaims s (req\<lparr>lc_StartAt := cursor\<rparr>) of
        Inl e \<Rightarrow> Inl e
      | Inr resp \<Rightarrow> Inr (lc_Claims resp, lc_More resp, lc_MoreStartAt resp))"

text \<open>
  The filter of a request without its cursor, as the handlers build it before they look
  at \<^verbatim>\<open>StartAt\<close>.
\<close>

definition rewards_request_filter :: "ListRewardsRequest \<Rightarrow> rewards_filter" where
  "rewards_request_filter req =
     \<lparr>f_org_key = (if lr_OrgKeyFilter req \<noteq> [] then Some (lr_OrgKeyFilter req) else None),
      f_dev_key = (if lr_DevKeyFilter req \<noteq> [] then Some (lr_DevKeyFilter req) else None),
      f_type = (if lr_RewardTypeFilter req \<noteq> REWARD_TYPE_UNSPECIFIED
                then Some (lr_RewardTypeFilter req) else None),
      f_created_at = None\<rparr>"

definition claims_request_filter :: "ListClaimsRequest \<Rightarrow> claims_filter" where
  "claims_request_filter req =
     \<lparr>g_org_key = (if lc_OrgKeyFilter req \<noteq> [] then Some (lc_OrgKeyFilter req) else None),
      g_claimed_by = (if lc_ClaimedByFilter req \<noteq> [] then Some (lc_ClaimedByFilter req) else None),
      g_created_at = None\<rparr>"

text \<open>A creation time strictly beyond \<open>t\<close> in the requested direction.\<close>

definition beyond :: "bool \<Rightarrow> time \<Rightarrow> time \<Rightarrow> bool" where
  "beyond ascending t x = (if ascending then t < x else x < t)"

text \<open>
  The page computation the two list handlers share, over any collection: the filter
  \<open>base\<close> of the request, the comparison chosen from the cursor and the direction, the
  query, and the probe at the last item.
\<close>

definition list_page ::
    "('a \<Rightarrow> bool) \<Rightarrow> ('a \<Rightarrow> time) \<Rightarrow> bool \<Rightarrow> int \<Rightarrow> 'a list \<Rightarrow> time option
       \<Rightarrow> 'a list \<times> bool \<times> time option" where
  "list_page base created_at ascending lim col cursor =
     (let comp = (if cursor \<noteq> None \<and> ascending then Gt else Lt);
          xs = mongo_Find
                 (\<lambda>x. base x \<and> created_at_matches (map_option (Pair comp) cursor) (created_at x))
                 created_at (if ascending then 1 else - 1)
                 (if 0 < lim then Some lim else None) col
      in if xs = [] then ([], False, None)
         else if \<exists>x \<in> set col. base x \<and>
                   created_at_matches (Some (comp, created_at (last xs))) (created_at x)
           then (xs, True, Some (created_at (last xs)))
           else (xs, False, None))"

text \<open>
  The records of a collection that match \<open>base\<close> and lie strictly beyond the cursor
  (all that match, without a cursor), in the order of the requested direction.
\<close>

definition records_beyond ::
    "('a \<Rightarrow> bool) \<Rightarrow> ('a \<Rightarrow> time) \<Rightarrow> bool \<Rightarrow> 'a list \<Rightarrow> time option \<Rightarrow> 'a list" where
  "records_beyond base created_at ascending col cursor =
     mongo_sort created_at (if ascending then 1 else - 1)
       (filter (\<lambda>x. base x \<and> (case cursor of None \<Rightarrow> True | Some t \<Rightarrow> beyond ascending t (created_at x))) col)"

text \<open>
  The cache within the ledger: every pair granted in the organization cache is the
  organization key and type of a stored reward, and every pair granted in the developer
  cache is the developer key and type of one.
\<close>

definition cache_in_ledger :: "Service \<Rightarrow> bool" where
  "cache_in_ledger s \<longleftrightarrow>
     (\<forall>k t. granted (rewardsCacheOrg s) k t \<longrightarrow>
        (\<exists>r \<in> set (rewardsCol (db s)). r_OrgKey r = k \<and> r_Type r = t)) \<and>
     (\<forall>k t. granted (rewardsCacheDev s) k t \<longrightarrow>
        (\<exists>r \<in> set (rewardsCol (db s)). r_DevKey r = k \<and> r_Type r = t))"

section \<open>Properties\<close>

subsection \<open>Granting: ledger append and cache update\<close>

lemma granted_ensureKeyRewardCache [simp]:
  "granted (ensureKeyRewardCache c k) k' t = granted c k' t"
  by (simp add: granted_def ensureKeyRewardCache_def)

lemma set_granted_ensureKeyRewardCache:
  "\<exists>c'. set_granted (ensureKeyRewardCache c k) k t = Inr c' \<and>
        (\<forall>k' t'. granted c' k' t' = (granted c k' t' \<or> (k' = k \<and> t' = t)))"
  by (auto simp: set_granted_def granted_def ensureKeyRewardCache_def split: option.splits)

lemma rewards_InsertOne_Inr:
  "rewards_InsertOne d r = Inr d' \<Longrightarrow> d' = d\<lparr>rewardsCol := rewardsCol d @ [r]\<rparr>"
  by (auto simp: rewards_InsertOne_def split: if_splits)

text \<open>
  A grant attempt is a request that passes the two validations, maps to a reward type and
  finds neither cache marked. Its outcome follows the outcome of the insert.
\<close>

lemma ProcessAnalyticsEvent_attempt:
  assumes "pe_OrgKey req \<noteq> []" "pe_AnalyticsEvent req \<noteq> EVENT_UNSPECIFIED"
    and "event_reward_type (pe_AnalyticsEvent req) = t" "t \<noteq> REWARD_TYPE_UNSPECIFIED"
    and "\<not> granted (rewardsCacheOrg s) (pe_OrgKey req) t"
    and "\<not> granted (rewardsCacheDev s) (pe_DevKey req) t"
    and "r = \<lparr>r_OrgKey = pe_OrgKey req, r_DevKey = pe_DevKey req, r_Type = t,
              r_Factor = meta_factor t, r_BaseAttoFILReward = baseAttoFILReward s,
              r_CreatedAt = now\<rparr>"
    and "ProcessAnalyticsEvent s req now = (res, s')"
  shows "case rewards_InsertOne (db s) r of
           Inl e \<Rightarrow> res = Inl Internal \<and> db s' = db s \<and>
             (\<forall>k u. granted (rewardsCacheOrg s') k u = granted (rewardsCacheOrg s) k u) \<and>
             (\<forall>k u. granted (rewardsCacheDev s') k u = granted (rewardsCacheDev s) k u)
         | Inr d \<Rightarrow> res = Inr (Some (toPbReward r)) \<and> db s' = d \<and>
             (\<forall>k u. granted (rewardsCacheOrg s') k u =
                (granted (rewardsCacheOrg s) k u \<or> (k = pe_OrgKey req \<and> u = t))) \<and>
             (\<forall>k u. granted (rewardsCacheDev s') k u =
                (granted (rewardsCacheDev s) k u \<or> (k = pe_DevKey req \<and> u = t)))"
proof -
  obtain co where co:
      "set_granted (ensureKeyRewardCache (rewardsCacheOrg s) (pe_OrgKey req)) (pe_OrgKey req) t = Inr co"
    and co': "\<forall>k' t'. granted co k' t' =
                (granted (rewardsCacheOrg s) k' t' \<or> (k' = pe_OrgKey req \<and> t' = t))"
    using set_granted_ensureKeyRewardCache by blast
  obtain cd where cd:
      "set_granted (ensureKeyRewardCache (rewardsCacheDev s) (pe_DevKey req)) (pe_DevKey req) t = Inr cd"
    and cd': "\<forall>k' t'. granted cd k' t' =
                (granted (rewardsCacheDev s) k' t' \<or> (k' = pe_DevKey req \<and> t' = t))"
    using set_granted_ensureKeyRewardCache by blast
  show ?thesis
    using assms co cd co' cd'
    by (auto simp: ProcessAnalyticsEvent_def Let_def split: sum.splits)
qed

lemma ProcessAnalyticsEvent_reward_cases:
  assumes "ProcessAnalyticsEvent s req now = (Inr (Some pr), s')"
  shows "pe_OrgKey req \<noteq> [] \<and> pe_AnalyticsEvent req \<noteq> EVENT_UNSPECIFIED \<and>
         event_reward_type (pe_AnalyticsEvent req) \<noteq> REWARD_TYPE_UNSPECIFIED \<and>
         \<not> granted (rewardsCacheOrg s) (pe_OrgKey req) (event_reward_type (pe_AnalyticsEvent req)) \<and>
         \<not> granted (rewardsCacheDev s) (pe_DevKey req) (event_reward_type (pe_AnalyticsEvent req))"
  using assms
  by (auto simp: ProcessAnalyticsEvent_def Let_def split: if_splits sum.splits)

text \<open>
  Claim C7. For a grant attempt the ledger append and the cache update go together. When
  the insert fails, \<open>ProcessAnalyticsEvent\<close> returns \<open>Internal\<close>, the store is unchanged
  and the set of granted pairs of either cache is the one before the call, so the pair of
  the request is granted in neither. When the insert succeeds, the response carries the
  reward, the rewards collection has grown by exactly that record, and the pair of the
  request is granted in both caches.
\<close>

theorem append_and_cache_update_atomic:
  assumes "pe_OrgKey req \<noteq> []" "pe_AnalyticsEvent req \<noteq> EVENT_UNSPECIFIED"
    and "event_reward_type (pe_AnalyticsEvent req) = t" "t \<noteq> REWARD_TYPE_UNSPECIFIED"
    and "\<not> granted (rewardsCacheOrg s) (pe_OrgKey req) t"
    and "\<not> granted (rewardsCacheDev s) (pe_DevKey req) t"
    and "r = \<lparr>r_OrgKey = pe_OrgKey req, r_DevKey = pe_DevKey req, r_Type = t,
              r_Factor = meta_factor t, r_BaseAttoFILReward = baseAttoFILReward s,
              r_CreatedAt = now\<rparr>"
    and "ProcessAnalyticsEvent s req now = (res, s')"
  shows "case rewards_InsertOne (db s) r of
           Inl e \<Rightarrow> res = Inl Internal \<and> db s' = db s \<and>
             (\<forall>k u. granted (rewardsCacheOrg s') k u = granted (rewardsCacheOrg s) k u) \<and>
             (\<forall>k u. granted (rewardsCacheDev s') k u = granted (rewardsCacheDev s) k u) \<and>
             \<not> granted (rewardsCacheOrg s') (pe_OrgKey req) t \<and>
             \<not> granted (rewardsCacheDev s') (pe_DevKey req) t
         | Inr d \<Rightarrow> res = Inr (Some (toPbReward r)) \<and> db s' = d \<and>
             rewardsCol d = rewardsCol (db s) @ [r] \<and> claimsCol d = claimsCol (db s) \<and>
             granted (rewardsCacheOrg s') (pe_OrgKey req) t \<and>
             granted (rewardsCacheDev s') (pe_DevKey req) t"
proof (cases "rewards_InsertOne (db s) r")
  case (Inl e)
  then show ?thesis
    using ProcessAnalyticsEvent_attempt [OF assms] assms(5,6) by simp
next
  case (Inr d)
  then show ?thesis
    using ProcessAnalyticsEvent_attempt [OF assms] rewards_InsertOne_Inr [OF Inr] by simp
qed

text \<open>
  The theorem at two inputs. In the first the ledger already holds the reward of
  \<open>org1\<close> for the type while the cache does not (another writer stored it), so the
  unique index refuses the insert. In the second the ledger is empty and the insert
  succeeds.
\<close>

theorem append_and_cache_update_atomic_witness:
  "(let s = \<lparr>db = \<lparr>rewardsCol = [\<lparr>r_OrgKey = ''org1'', r_DevKey = ''dev0'',
                     r_Type = REWARD_TYPE_FIRST_BUCKET_CREATED, r_Factor = 2,
                     r_BaseAttoFILReward = 100, r_CreatedAt = 3\<rparr>],
                   claimsCol = [], reads_ok = True, writes_ok = True\<rparr>,
             rewardsCacheOrg = Map.empty, rewardsCacheDev = Map.empty, baseAttoFILReward = 100\<rparr>;
        req = \<lparr>pe_OrgKey = ''org1'', pe_DevKey = ''dev1'', pe_AnalyticsEvent = EVENT_BUCKET_CREATED\<rparr>;
        out = ProcessAnalyticsEvent s req 7
    in fst out = Inl Internal \<and> db (snd out) = db s \<and>
       \<not> granted (rewardsCacheOrg (snd out)) ''org1'' REWARD_TYPE_FIRST_BUCKET_CREATED \<and>
       \<not> granted (rewardsCacheDev (snd out)) ''dev1'' REWARD_TYPE_FIRST_BUCKET_CREATED) \<and>
   (let s = \<lparr>db = \<lparr>rewardsCol = [], claimsCol = [], reads_ok = True, writes_ok = True\<rparr>,
             rewardsCacheOrg = Map.empty, rewardsCacheDev = Map.empty, baseAttoFILReward = 100\<rparr>;
        req = \<lparr>pe_OrgKey = ''org1'', pe_DevKey = ''dev1'', pe_AnalyticsEvent = EVENT_BUCKET_CREATED\<rparr>;
        out = ProcessAnalyticsEvent s req 7
    in (\<exists>pr. fst out = Inr (Some pr)) \<and> length (rewardsCol (db (snd out))) = 1 \<and>
       granted (rewardsCacheOrg (snd out)) ''org1'' REWARD_TYPE_FIRST_BUCKET_CREATED \<and>
       granted (rewardsCacheDev (snd out)) ''dev1'' REWARD_TYPE_FIRST_BUCKET_CREATED)"
  using append_and_cache_update_atomic
    [of "\<lparr>pe_OrgKey = ''org1'', pe_DevKey = ''dev1'', pe_AnalyticsEvent = EVENT_BUCKET_CREATED\<rparr>"
        REWARD_TYPE_FIRST_BUCKET_CREATED
        "\<lparr>db = \<lparr>rewardsCol = [\<lparr>r_OrgKey = ''org1'', r_DevKey = ''dev0'',
                     r_Type = REWARD_TYPE_FIRST_BUCKET_CREATED, r_Factor = 2,
                     r_BaseAttoFILReward = 100, r_CreatedAt = 3\<rparr>],
                   claimsCol = [], reads_ok = True, writes_ok = True\<rparr>,
             rewardsCacheOrg = Map.empty, rewardsCacheDev = Map.empty, baseAttoFILReward = 100\<rparr>"
        _ 7, OF _ _ _ _ _ _ refl surjective_pairing]
    append_and_cache_update_atomic
    [of "\<lparr>pe_OrgKey = ''org1'', pe_DevKey = ''dev1'', pe_AnalyticsEvent = EVENT_BUCKET_CREATED\<rparr>"
        REWARD_TYPE_FIRST_BUCKET_CREATED
        "\<lparr>db = \<lparr>rewardsCol = [], claimsCol = [], reads_ok = True, writes_ok = True\<rparr>,
             rewardsCacheOrg = Map.empty, rewardsCacheDev = Map.empty, baseAttoFILReward = 100\<rparr>"
        _ 7, OF _ _ _ _ _ _ refl surjective_pairing]
  by (simp add: Let_def granted_def rewards_InsertOne_def)

text \<open>
  Claim C9. A response that carries a reward comes with exactly one new record in the
  rewards collection. The factor of the record is the entry of \<open>rewardTypeMeta\<close> for its
  type (2 for the first-bucket-created type), its base amount is the service's
  \<open>baseAttoFILReward\<close>, and the reward of the response is that record.
\<close>

theorem granted_reward_factor_and_base:
  assumes "ProcessAnalyticsEvent s req now = (Inr (Some pr), s')"
  shows "\<exists>r. rewardsCol (db s') = rewardsCol (db s) @ [r] \<and>
             rewardTypeMeta (r_Type r) = Some \<lparr>factor = r_Factor r\<rparr> \<and>
             (r_Type r = REWARD_TYPE_FIRST_BUCKET_CREATED \<longrightarrow> r_Factor r = 2) \<and>
             r_BaseAttoFILReward r = baseAttoFILReward s \<and>
             pr = toPbReward r"
proof -
  define t where "t = event_reward_type (pe_AnalyticsEvent req)"
  define r where "r = \<lparr>r_OrgKey = pe_OrgKey req, r_DevKey = pe_DevKey req, r_Type = t,
              r_Factor = meta_factor t, r_BaseAttoFILReward = baseAttoFILReward s,
              r_CreatedAt = now\<rparr>"
  have c: "pe_OrgKey req \<noteq> []" "pe_AnalyticsEvent req \<noteq> EVENT_UNSPECIFIED"
    "t \<noteq> REWARD_TYPE_UNSPECIFIED" "\<not> granted (rewardsCacheOrg s) (pe_OrgKey req) t"
    "\<not> granted (rewardsCacheDev s) (pe_DevKey req) t"
    using ProcessAnalyticsEvent_reward_cases [OF assms] by (simp_all add: t_def)
  have a: "case rewards_InsertOne (db s) r of
           Inl e \<Rightarrow> Inr (Some pr) = (Inl Internal :: err + pb_Reward option)
         | Inr d \<Rightarrow> Inr (Some pr) = (Inr (Some (toPbReward r)) :: err + pb_Reward option) \<and> db s' = d"
    using ProcessAnalyticsEvent_attempt [OF c(1,2) t_def [symmetric] c(3,4,5) r_def assms]
    by (auto split: sum.splits)
  then obtain d where d: "rewards_InsertOne (db s) r = Inr d" "pr = toPbReward r" "db s' = d"
    by (auto split: sum.splits)
  have col: "rewardsCol (db s') = rewardsCol (db s) @ [r]"
    using rewards_InsertOne_Inr [OF d(1)] d(3) by simp
  have m: "rewardTypeMeta t = Some \<lparr>factor = meta_factor t\<rparr>"
    using c(3) by (cases t) (simp_all add: meta_factor_def)
  have b: "t = REWARD_TYPE_FIRST_BUCKET_CREATED \<longrightarrow> meta_factor t = 2"
    by (simp add: meta_factor_def)
  show ?thesis
    using col m b d(2) by (intro exI [of _ r]) (simp add: r_def)
qed

text \<open>
  The theorem at the scenario of the specification: base unit 100 and a first
  bucket-created event for \<open>org1\<close> on an empty ledger.
\<close>

theorem granted_reward_factor_and_base_witness:
  "ProcessAnalyticsEvent
      \<lparr>db = \<lparr>rewardsCol = [], claimsCol = [], reads_ok = True, writes_ok = True\<rparr>,
       rewardsCacheOrg = Map.empty, rewardsCacheDev = Map.empty, baseAttoFILReward = 100\<rparr>
      \<lparr>pe_OrgKey = ''org1'', pe_DevKey = ''dev1'', pe_AnalyticsEvent = EVENT_BUCKET_CREATED\<rparr> 7
    = (Inr (Some \<lparr>pbr_OrgKey = ''org1'', pbr_DevKey = ''dev1'',
                   pbr_Type = REWARD_TYPE_FIRST_BUCKET_CREATED, pbr_Factor = 2,
                   pbr_BaseAttoFilReward = 100, pbr_CreatedAt = 7\<rparr>),
       \<lparr>db = \<lparr>rewardsCol = [\<lparr>r_OrgKey = ''org1'', r_DevKey = ''dev1'',
                   r_Type = REWARD_TYPE_FIRST_BUCKET_CREATED, r_Factor = 2,
                   r_BaseAttoFILReward = 100, r_CreatedAt = 7\<rparr>],
               claimsCol = [], reads_ok = True, writes_ok = True\<rparr>,
        rewardsCacheOrg = [''org1'' \<mapsto> {REWARD_TYPE_FIRST_BUCKET_CREATED}],
        rewardsCacheDev = [''dev1'' \<mapsto> {REWARD_TYPE_FIRST_BUCKET_CREATED}],
        baseAttoFILReward = 100\<rparr>)
   \<and> (\<exists>r. [\<lparr>r_OrgKey = ''org1'', r_DevKey = ''dev1'',
              r_Type = REWARD_TYPE_FIRST_BUCKET_CREATED, r_Factor = 2,
              r_BaseAttoFILReward = 100, r_CreatedAt = 7\<rparr>] = [] @ [r] \<and>
            rewardTypeMeta (r_Type r) = Some \<lparr>factor = r_Factor r\<rparr> \<and>
            r_BaseAttoFILReward r = 100)"
proof -
  have e: "ProcessAnalyticsEvent
      \<lparr>db = \<lparr>rewardsCol = [], claimsCol = [], reads_ok = True, writes_ok = True\<rparr>,
       rewardsCacheOrg = Map.empty, rewardsCacheDev = Map.empty, baseAttoFILReward = 100\<rparr>
      \<lparr>pe_OrgKey = ''org1'', pe_DevKey = ''dev1'', pe_AnalyticsEvent = EVENT_BUCKET_CREATED\<rparr> 7
    = (Inr (Some \<lparr>pbr_OrgKey = ''org1'', pbr_DevKey = ''dev1'',
                   pbr_Type = REWARD_TYPE_FIRST_BUCKET_CREATED, pbr_Factor = 2,
                   pbr_BaseAttoFilReward = 100, pbr_CreatedAt = 7\<rparr>),
       \<lparr>db = \<lparr>rewardsCol = [\<lparr>r_OrgKey = ''org1'', r_DevKey = ''dev1'',
                   r_Type = REWARD_TYPE_FIRST_BUCKET_CREATED, r_Factor = 2,
                   r_BaseAttoFILReward = 100, r_CreatedAt = 7\<rparr>],
               claimsCol = [], reads_ok = True, writes_ok = True\<rparr>,
        rewardsCacheOrg = [''org1'' \<mapsto> {REWARD_TYPE_FIRST_BUCKET_CREATED}],
        rewardsCacheDev = [''dev1'' \<mapsto> {REWARD_TYPE_FIRST_BUCKET_CREATED}],
        baseAttoFILReward = 100\<rparr>)"
    by (simp add: ProcessAnalyticsEvent_def Let_def granted_def ensureKeyRewardCache_def
        set_granted_def rewards_InsertOne_def meta_factor_def toPbReward_def)
  show ?thesis
    using e granted_reward_factor_and_base [OF e] by auto
qed

text \<open>The constant of the service is the one of the configuration it was built with.\<close>

lemma New_config:
  "New config d = Inr s \<Longrightarrow> baseAttoFILReward s = BaseAttoFILReward config \<and> db s = d"
  by (auto simp: New_def split: if_splits sum.splits)

text \<open>
  Claim C8 does not hold for every request: the two validations come first, so a request
  with an empty organization key, or with the unspecified event, gets \<open>InvalidArgument\<close>
  although its event maps to no reward type.
\<close>

theorem empty_result_counterexample:
  "event_reward_type EVENT_FIL_CLAIM = REWARD_TYPE_UNSPECIFIED \<and>
   fst (ProcessAnalyticsEvent
      \<lparr>db = \<lparr>rewardsCol = [], claimsCol = [], reads_ok = True, writes_ok = True\<rparr>,
       rewardsCacheOrg = Map.empty, rewardsCacheDev = Map.empty, baseAttoFILReward = 100\<rparr>
      \<lparr>pe_OrgKey = '''', pe_DevKey = ''dev1'', pe_AnalyticsEvent = EVENT_FIL_CLAIM\<rparr> 9)
    = Inl InvalidArgument \<and>
   event_reward_type EVENT_UNSPECIFIED = REWARD_TYPE_UNSPECIFIED \<and>
   fst (ProcessAnalyticsEvent
      \<lparr>db = \<lparr>rewardsCol = [], claimsCol = [], reads_ok = True, writes_ok = True\<rparr>,
       rewardsCacheOrg = Map.empty, rewardsCacheDev = Map.empty, baseAttoFILReward = 100\<rparr>
      \<lparr>pe_OrgKey = ''org1'', pe_DevKey = ''dev1'', pe_AnalyticsEvent = EVENT_UNSPECIFIED\<rparr> 9)
    = Inl InvalidArgument"
  by (simp add: ProcessAnalyticsEvent_def)

text \<open>
  Claim C8, amended. For every request with a non-empty organization key and an event
  other than the unspecified one: when the event maps to no reward type, or the pair of
  the organization key or of the developer key with the mapped type is granted in the
  cache, the call returns the empty response, no error, and the store is unchanged.
\<close>

theorem no_reward_paths_return_empty:
  assumes "pe_OrgKey req \<noteq> []" "pe_AnalyticsEvent req \<noteq> EVENT_UNSPECIFIED"
    and "event_reward_type (pe_AnalyticsEvent req) = REWARD_TYPE_UNSPECIFIED \<or>
         granted (rewardsCacheOrg s) (pe_OrgKey req) (event_reward_type (pe_AnalyticsEvent req)) \<or>
         granted (rewardsCacheDev s) (pe_DevKey req) (event_reward_type (pe_AnalyticsEvent req))"
  shows "fst (ProcessAnalyticsEvent s req now) = Inr None \<and>
         db (snd (ProcessAnalyticsEvent s req now)) = db s"
  using assms by (auto simp: ProcessAnalyticsEvent_def Let_def)

text \<open>
  The theorem at a duplicate event for \<open>org1\<close>, whose pair the cache holds, and at an
  event that maps to no reward type.
\<close>

theorem no_reward_paths_return_empty_witness:
  "fst (ProcessAnalyticsEvent
      \<lparr>db = \<lparr>rewardsCol = [\<lparr>r_OrgKey = ''org1'', r_DevKey = ''dev1'',
                   r_Type = REWARD_TYPE_FIRST_BUCKET_CREATED, r_Factor = 2,
                   r_BaseAttoFILReward = 100, r_CreatedAt = 7\<rparr>],
               claimsCol = [], reads_ok = True, writes_ok = True\<rparr>,
       rewardsCacheOrg = [''org1'' \<mapsto> {REWARD_TYPE_FIRST_BUCKET_CREATED}],
       rewardsCacheDev = [''dev1'' \<mapsto> {REWARD_TYPE_FIRST_BUCKET_CREATED}],
       baseAttoFILReward = 100\<rparr>
      \<lparr>pe_OrgKey = ''org1'', pe_DevKey = ''dev2'', pe_AnalyticsEvent = EVENT_BUCKET_CREATED\<rparr> 9)
    = Inr None \<and>
   length (rewardsCol (db (snd (ProcessAnalyticsEvent
      \<lparr>db = \<lparr>rewardsCol = [\<lparr>r_OrgKey = ''org1'', r_DevKey = ''dev1'',
                   r_Type = REWARD_TYPE_FIRST_BUCKET_CREATED, r_Factor = 2,
                   r_BaseAttoFILReward = 100, r_CreatedAt = 7\<rparr>],
               claimsCol = [], reads_ok = True, writes_ok = True\<rparr>,
       rewardsCacheOrg = [''org1'' \<mapsto> {REWARD_TYPE_FIRST_BUCKET_CREATED}],
       rewardsCacheDev = [''dev1'' \<mapsto> {REWARD_TYPE_FIRST_BUCKET_CREATED}],
       baseAttoFILReward = 100\<rparr>
      \<lparr>pe_OrgKey = ''org1'', pe_DevKey = ''dev2'', pe_AnalyticsEvent = EVENT_BUCKET_CREATED\<rparr> 9)))) = 1 \<and>
   fst (ProcessAnalyticsEvent
      \<lparr>db = \<lparr>rewardsCol = [], claimsCol = [], reads_ok = True, writes_ok = True\<rparr>,
       rewardsCacheOrg = Map.empty, rewardsCacheDev = Map.empty, baseAttoFILReward = 100\<rparr>
      \<lparr>pe_OrgKey = ''org1'', pe_DevKey = ''dev2'', pe_AnalyticsEvent = EVENT_FIL_CLAIM\<rparr> 9)
    = Inr None"
  using no_reward_paths_return_empty
    [of "\<lparr>pe_OrgKey = ''org1'', pe_DevKey = ''dev2'', pe_AnalyticsEvent = EVENT_BUCKET_CREATED\<rparr>"
        "\<lparr>db = \<lparr>rewardsCol = [\<lparr>r_OrgKey = ''org1'', r_DevKey = ''dev1'',
                   r_Type = REWARD_TYPE_FIRST_BUCKET_CREATED, r_Factor = 2,
                   r_BaseAttoFILReward = 100, r_CreatedAt = 7\<rparr>],
               claimsCol = [], reads_ok = True, writes_ok = True\<rparr>,
       rewardsCacheOrg = [''org1'' \<mapsto> {REWARD_TYPE_FIRST_BUCKET_CREATED}],
       rewardsCacheDev = [''dev1'' \<mapsto> {REWARD_TYPE_FIRST_BUCKET_CREATED}],
       baseAttoFILReward = 100\<rparr>" 9]
    no_reward_paths_return_empty
    [of "\<lparr>pe_OrgKey = ''org1'', pe_DevKey = ''dev2'', pe_AnalyticsEvent = EVENT_FIL_CLAIM\<rparr>"
        "\<lparr>db = \<lparr>rewardsCol = [], claimsCol = [], reads_ok = True, writes_ok = True\<rparr>,
       rewardsCacheOrg = Map.empty, rewardsCacheDev = Map.empty, baseAttoFILReward = 100\<rparr>" 9]
  by (simp add: granted_def)

subsection \<open>Balance and claims\<close>

text \<open>Without a reward of the organization the pipeline of \<open>totalRewarded\<close> has no row.\<close>

lemma totalRewarded_no_rows:
  assumes "filter (\<lambda>r. r_OrgKey r = k) (rewardsCol d) = []"
  shows "totalRewarded d k = (if reads_ok d then Inl NoTotalFound else Inl StoreError)"
  using assms by (simp add: totalRewarded_def mongo_group_total_def)

text \<open>\<open>Claim\<close> by cases, with the insert into the claims collection spelled out.\<close>

lemma Claim_cases:
  "Claim s req now =
     (case totalRewarded (db s) (cq_OrgKey req) of
        Inl e \<Rightarrow> (Inl (as_internal e), s)
      | Inr tr \<Rightarrow>
          (case totalClaimed (db s) (cq_OrgKey req) of
             Inl e \<Rightarrow> (Inl (as_internal e), s)
           | Inr tc \<Rightarrow>
               if sint (tr - tc) < sint (cq_Amount req) then (Inl InvalidArgument, s)
               else if writes_ok (db s)
                 then (Inr (), s\<lparr>db := (db s)\<lparr>claimsCol := claimsCol (db s) @
                        [\<lparr>c_OrgKey = cq_OrgKey req, c_ClaimedBy = cq_ClaimedBy req,
                          c_Amount = cq_Amount req, c_CreatedAt = now\<rparr>]\<rparr>\<rparr>)
                 else (Inl Internal, s)))"
  by (simp add: Claim_def claims_InsertOne_def Let_def split: sum.splits)

lemma as_internal_neq_InvalidArgument [simp]: "as_internal e \<noteq> InvalidArgument"
  by (cases e) simp_all

text \<open>
  The two totals on the ledger of the examples below, one reward of 2 times 100 for
  \<open>org1\<close>, whatever the claims collection holds.
\<close>

lemma ex_totals:
  "totalRewarded \<lparr>rewardsCol = [\<lparr>r_OrgKey = ''org1'', r_DevKey = ''dev1'',
                   r_Type = REWARD_TYPE_FIRST_BUCKET_CREATED, r_Factor = 2,
                   r_BaseAttoFILReward = 100, r_CreatedAt = 7\<rparr>],
               claimsCol = cs, reads_ok = True, writes_ok = w\<rparr> ''org1'' = Inr 200"
  "totalClaimed \<lparr>rewardsCol = [\<lparr>r_OrgKey = ''org1'', r_DevKey = ''dev1'',
                   r_Type = REWARD_TYPE_FIRST_BUCKET_CREATED, r_Factor = 2,
                   r_BaseAttoFILReward = 100, r_CreatedAt = 7\<rparr>],
               claimsCol = cs, reads_ok = True, writes_ok = w\<rparr> ''org1'' = Inr 0"
  by (simp_all add: totalRewarded_def totalClaimed_def mongo_group_total_def mongo_sum_def
      mongo_multiply_def reward_field_def int_or_long_def fits_int32_def)

text \<open>Products and sums that stay in the 32-bit range keep their type and value.\<close>

lemma sint_word_of_int_fits:
  "fits_int32 n \<Longrightarrow> sint (word_of_int n :: int32) = n"
  by (simp add: fits_int32_def sint_sbintrunc' signed_take_bit_int_eq_self)

lemma sint_mult_fits:
  assumes "fits_int32 (sint a * sint b)"
  shows "sint (a * b :: int32) = sint a * sint b"
  using sint_word_of_int_fits [OF assms] by simp

lemma mongo_multiply_int32:
  assumes "fits_int32 (sint a * sint b)"
  shows "mongo_multiply (BInt32 a) (BInt32 b) = BInt32 (word_of_int (sint a * sint b))"
  using assms by (simp add: mongo_multiply_def int_or_long_def)

lemma mongo_sum_int32:
  assumes "fits_int32 (sum_list (map sint ws))"
  shows "mongo_sum (map BInt32 ws) = BInt32 (word_of_int (sum_list (map sint ws)))"
proof -
  have "\<not> list_ex is_int64 (map BInt32 ws)" by (induction ws) simp_all
  moreover have "map (\<lambda>v. case bson_int v of None \<Rightarrow> 0 | Some n \<Rightarrow> n) (map BInt32 ws) = map sint ws"
    by simp
  ultimately show ?thesis
    unfolding mongo_sum_def int_or_long_def using assms by (simp add: comp_def)
qed

text \<open>
  The rewarded half of the balance: when the organization has reward records and
  neither a product nor the sum leaves the 32-bit range, \<open>totalRewarded\<close> is the sum of
  factor times base amount over its records.
\<close>

lemma totalRewarded_sum:
  assumes "reads_ok d" and "filter (\<lambda>r. r_OrgKey r = k) (rewardsCol d) \<noteq> []"
    and p: "list_all (\<lambda>r. fits_int32 (sint (r_Factor r) * sint (r_BaseAttoFILReward r)))
             (filter (\<lambda>r. r_OrgKey r = k) (rewardsCol d))"
    and t: "fits_int32 (spec_rewarded d k)"
  shows "totalRewarded d k = Inr (word_of_int (spec_rewarded d k))"
    and "\<exists>w. totalRewarded d k = Inr w \<and> sint w = spec_rewarded d k"
proof -
  let ?rows = "filter (\<lambda>r. r_OrgKey r = k) (rewardsCol d)"
  let ?ws = "map (\<lambda>r. word_of_int (sint (r_Factor r) * sint (r_BaseAttoFILReward r)) :: int32) ?rows"
  have m: "map (\<lambda>r. mongo_multiply (reward_field ''factor'' r) (reward_field ''base_atto_fil_reward'' r)) ?rows
             = map BInt32 ?ws"
    using p by (induction ?rows) (simp_all add: reward_field_def mongo_multiply_int32 list_all_iff)
  have s: "map sint ?ws = map (\<lambda>r. sint (r_Factor r) * sint (r_BaseAttoFILReward r)) ?rows"
    using p by (simp add: list_all_iff sint_mult_fits)
  have "sum_list (map sint ?ws) = spec_rewarded d k"
    unfolding s spec_rewarded_def by (rule refl)
  then have ms: "mongo_sum (map BInt32 ?ws) = BInt32 (word_of_int (spec_rewarded d k))"
    using mongo_sum_int32 [of ?ws] t by simp
  show 1: "totalRewarded d k = Inr (word_of_int (spec_rewarded d k))"
    unfolding totalRewarded_def mongo_group_total_def m ms using assms(1,2) by simp
  show "\<exists>w. totalRewarded d k = Inr w \<and> sint w = spec_rewarded d k"
    using 1 t by (simp add: sint_word_of_int_fits)
qed

text \<open>\<open>totalClaimed\<close> is 0 whenever it returns, whatever the claims collection holds.\<close>

lemma reward_field_amount: "reward_field ''amount'' r = BNull"
  by (simp add: reward_field_def)

lemma mongo_sum_nulls: "mongo_sum (map (\<lambda>r. BNull) rows) = BInt32 0"
proof -
  have "\<not> list_ex is_int64 (map (\<lambda>r. BNull) rows)" by (induction rows) simp_all
  moreover have "sum_list (map (\<lambda>v. case bson_int v of None \<Rightarrow> 0 | Some n \<Rightarrow> n)
                    (map (\<lambda>r. BNull) rows)) = 0"
    by (induction rows) simp_all
  ultimately show ?thesis
    unfolding mongo_sum_def int_or_long_def by (simp add: fits_int32_def comp_def)
qed

lemma totalClaimed_zero:
  "totalClaimed d k = Inr w \<Longrightarrow> w = 0"
  unfolding totalClaimed_def mongo_group_total_def reward_field_amount mongo_sum_nulls
  by (auto split: if_splits)

text \<open>
  Claim C1, at a ledger on which the code and the claim differ. \<open>org1\<close> has one reward
  of 2 times 100 and one claim of 50. The sum of the claim amounts is 50; \<open>totalClaimed\<close>
  aggregates the rewards collection, whose documents have no \<^verbatim>\<open>amount\<close>, and returns
  0, so \<open>Balance\<close> reports 200 available.
\<close>

theorem total_claimed_reads_rewards:
  "spec_claimed \<lparr>rewardsCol = [\<lparr>r_OrgKey = ''org1'', r_DevKey = ''dev1'',
                   r_Type = REWARD_TYPE_FIRST_BUCKET_CREATED, r_Factor = 2,
                   r_BaseAttoFILReward = 100, r_CreatedAt = 7\<rparr>],
               claimsCol = [\<lparr>c_OrgKey = ''org1'', c_ClaimedBy = ''alice'', c_Amount = 50,
                   c_CreatedAt = 8\<rparr>], reads_ok = True, writes_ok = True\<rparr> ''org1'' = 50 \<and>
   totalClaimed \<lparr>rewardsCol = [\<lparr>r_OrgKey = ''org1'', r_DevKey = ''dev1'',
                   r_Type = REWARD_TYPE_FIRST_BUCKET_CREATED, r_Factor = 2,
                   r_BaseAttoFILReward = 100, r_CreatedAt = 7\<rparr>],
               claimsCol = [\<lparr>c_OrgKey = ''org1'', c_ClaimedBy = ''alice'', c_Amount = 50,
                   c_CreatedAt = 8\<rparr>], reads_ok = True, writes_ok = True\<rparr> ''org1'' = Inr 0 \<and>
   Balance \<lparr>db = \<lparr>rewardsCol = [\<lparr>r_OrgKey = ''org1'', r_DevKey = ''dev1'',
                   r_Type = REWARD_TYPE_FIRST_BUCKET_CREATED, r_Factor = 2,
                   r_BaseAttoFILReward = 100, r_CreatedAt = 7\<rparr>],
               claimsCol = [\<lparr>c_OrgKey = ''org1'', c_ClaimedBy = ''alice'', c_Amount = 50,
                   c_CreatedAt = 8\<rparr>], reads_ok = True, writes_ok = True\<rparr>,
       rewardsCacheOrg = Map.empty, rewardsCacheDev = Map.empty, baseAttoFILReward = 100\<rparr>
      \<lparr>bq_OrgKey = ''org1''\<rparr> = Inr \<lparr>b_Rewarded = 200, b_Claimed = 0, b_Available = 200\<rparr>"
  by (simp add: spec_claimed_def Balance_def ex_totals)

text \<open>
  Claim C2 does not hold: with no reward document of the organization the
  \<^verbatim>\<open>$group\<close> stage yields no document, and both aggregations return their
  \<^verbatim>\<open>no total ... calculation found\<close> error, which \<open>Balance\<close> and \<open>Claim\<close> report
  as \<open>Internal\<close>.
\<close>

theorem no_rows_zero_counterexample:
  "filter (\<lambda>r. r_OrgKey r = ''org1'') [] = [] \<and>
   totalRewarded \<lparr>rewardsCol = [], claimsCol = [], reads_ok = True, writes_ok = True\<rparr> ''org1''
     = Inl NoTotalFound \<and>
   totalClaimed \<lparr>rewardsCol = [], claimsCol = [], reads_ok = True, writes_ok = True\<rparr> ''org1''
     = Inl NoTotalFound \<and>
   Balance \<lparr>db = \<lparr>rewardsCol = [], claimsCol = [], reads_ok = True, writes_ok = True\<rparr>,
       rewardsCacheOrg = Map.empty, rewardsCacheDev = Map.empty, baseAttoFILReward = 100\<rparr>
      \<lparr>bq_OrgKey = ''org1''\<rparr> = Inl Internal \<and>
   fst (Claim \<lparr>db = \<lparr>rewardsCol = [], claimsCol = [], reads_ok = True, writes_ok = True\<rparr>,
       rewardsCacheOrg = Map.empty, rewardsCacheDev = Map.empty, baseAttoFILReward = 100\<rparr>
      \<lparr>cq_OrgKey = ''org1'', cq_ClaimedBy = ''alice'', cq_Amount = 0\<rparr> 9) = Inl Internal"
  by (simp add: totalRewarded_def totalClaimed_def mongo_group_total_def Balance_def Claim_def)

text \<open>
  Claim C2, amended. For every organization key with no Reward records the rewarded
  aggregation returns no total but an error (\<open>NoTotalFound\<close> when the store answers),
  and \<open>Balance\<close> and \<open>Claim\<close> fail with \<open>Internal\<close>; \<open>Claim\<close> leaves the state as it
  was.
\<close>

theorem no_reward_rows_is_an_error:
  assumes "\<forall>r \<in> set (rewardsCol (db s)). r_OrgKey r \<noteq> k"
  shows "totalRewarded (db s) k = (if reads_ok (db s) then Inl NoTotalFound else Inl StoreError) \<and>
         Balance s \<lparr>bq_OrgKey = k\<rparr> = Inl Internal \<and>
         Claim s \<lparr>cq_OrgKey = k, cq_ClaimedBy = who, cq_Amount = amount\<rparr> now = (Inl Internal, s)"
proof -
  have "filter (\<lambda>r. r_OrgKey r = k) (rewardsCol (db s)) = []"
    using assms by (simp add: filter_empty_conv)
  from totalRewarded_no_rows [OF this] show ?thesis
    by (simp add: Balance_def Claim_def)
qed

text \<open>The theorem at \<open>org2\<close>, on a ledger that holds one reward, of \<open>org1\<close>.\<close>

theorem no_reward_rows_is_an_error_witness:
  "totalRewarded (db \<lparr>db = \<lparr>rewardsCol = [\<lparr>r_OrgKey = ''org1'', r_DevKey = ''dev1'',
                   r_Type = REWARD_TYPE_FIRST_BUCKET_CREATED, r_Factor = 2,
                   r_BaseAttoFILReward = 100, r_CreatedAt = 7\<rparr>], claimsCol = [], reads_ok = True, writes_ok = True\<rparr>,
       rewardsCacheOrg = Map.empty, rewardsCacheDev = Map.empty, baseAttoFILReward = 100\<rparr>) ''org2'' = Inl NoTotalFound \<and>
   Balance \<lparr>db = \<lparr>rewardsCol = [\<lparr>r_OrgKey = ''org1'', r_DevKey = ''dev1'',
                   r_Type = REWARD_TYPE_FIRST_BUCKET_CREATED, r_Factor = 2,
                   r_BaseAttoFILReward = 100, r_CreatedAt = 7\<rparr>], claimsCol = [], reads_ok = True, writes_ok = True\<rparr>,
       rewardsCacheOrg = Map.empty, rewardsCacheDev = Map.empty, baseAttoFILReward = 100\<rparr> \<lparr>bq_OrgKey = ''org2''\<rparr> = Inl Internal \<and>
   Claim \<lparr>db = \<lparr>rewardsCol = [\<lparr>r_OrgKey = ''org1'', r_DevKey = ''dev1'',
                   r_Type = REWARD_TYPE_FIRST_BUCKET_CREATED, r_Factor = 2,
                   r_BaseAttoFILReward = 100, r_CreatedAt = 7\<rparr>], claimsCol = [], reads_ok = True, writes_ok = True\<rparr>,
       rewardsCacheOrg = Map.empty, rewardsCacheDev = Map.empty, baseAttoFILReward = 100\<rparr> \<lparr>cq_OrgKey = ''org2'', cq_ClaimedBy = ''bob'', cq_Amount = 0\<rparr> 9 =
     (Inl Internal, \<lparr>db = \<lparr>rewardsCol = [\<lparr>r_OrgKey = ''org1'', r_DevKey = ''dev1'',
                   r_Type = REWARD_TYPE_FIRST_BUCKET_CREATED, r_Factor = 2,
                   r_BaseAttoFILReward = 100, r_CreatedAt = 7\<rparr>], claimsCol = [], reads_ok = True, writes_ok = True\<rparr>,
       rewardsCacheOrg = Map.empty, rewardsCacheDev = Map.empty, baseAttoFILReward = 100\<rparr>)"
  using no_reward_rows_is_an_error
    [of "\<lparr>db = \<lparr>rewardsCol = [\<lparr>r_OrgKey = ''org1'', r_DevKey = ''dev1'',
                   r_Type = REWARD_TYPE_FIRST_BUCKET_CREATED, r_Factor = 2,
                   r_BaseAttoFILReward = 100, r_CreatedAt = 7\<rparr>], claimsCol = [], reads_ok = True, writes_ok = True\<rparr>,
       rewardsCacheOrg = Map.empty, rewardsCacheDev = Map.empty, baseAttoFILReward = 100\<rparr>" "''org2''" "''bob''" 0 9]
  by simp

text \<open>
  Claim C6 does not hold with the available balance the specification words. On empty
  ledgers that balance is 0 and a claim of 1 exceeds it, yet \<open>Claim\<close> fails with
  \<open>Internal\<close>, not \<open>InvalidArgument\<close>. With one reward of 200 and one claim of 50 the
  balance is 150, and a claim of 151 succeeds.
\<close>

theorem claim_guard_counterexample:
  "spec_rewarded (db \<lparr>db = \<lparr>rewardsCol = [], claimsCol = [], reads_ok = True, writes_ok = True\<rparr>,
       rewardsCacheOrg = Map.empty, rewardsCacheDev = Map.empty, baseAttoFILReward = 100\<rparr>) ''org1'' - spec_claimed (db \<lparr>db = \<lparr>rewardsCol = [], claimsCol = [], reads_ok = True, writes_ok = True\<rparr>,
       rewardsCacheOrg = Map.empty, rewardsCacheDev = Map.empty, baseAttoFILReward = 100\<rparr>) ''org1'' < sint (1 :: int32) \<and>
   fst (Claim \<lparr>db = \<lparr>rewardsCol = [], claimsCol = [], reads_ok = True, writes_ok = True\<rparr>,
       rewardsCacheOrg = Map.empty, rewardsCacheDev = Map.empty, baseAttoFILReward = 100\<rparr>
      \<lparr>cq_OrgKey = ''org1'', cq_ClaimedBy = ''alice'', cq_Amount = 1\<rparr> 9) = Inl Internal \<and>
   spec_rewarded (db \<lparr>db = \<lparr>rewardsCol = [\<lparr>r_OrgKey = ''org1'', r_DevKey = ''dev1'',
                   r_Type = REWARD_TYPE_FIRST_BUCKET_CREATED, r_Factor = 2,
                   r_BaseAttoFILReward = 100, r_CreatedAt = 7\<rparr>], claimsCol = [\<lparr>c_OrgKey = ''org1'', c_ClaimedBy = ''alice'', c_Amount = 50, c_CreatedAt = 8\<rparr>], reads_ok = True, writes_ok = True\<rparr>,
       rewardsCacheOrg = Map.empty, rewardsCacheDev = Map.empty, baseAttoFILReward = 100\<rparr>) ''org1'' - spec_claimed (db \<lparr>db = \<lparr>rewardsCol = [\<lparr>r_OrgKey = ''org1'', r_DevKey = ''dev1'',
                   r_Type = REWARD_TYPE_FIRST_BUCKET_CREATED, r_Factor = 2,
                   r_BaseAttoFILReward = 100, r_CreatedAt = 7\<rparr>], claimsCol = [\<lparr>c_OrgKey = ''org1'', c_ClaimedBy = ''alice'', c_Amount = 50, c_CreatedAt = 8\<rparr>], reads_ok = True, writes_ok = True\<rparr>,
       rewardsCacheOrg = Map.empty, rewardsCacheDev = Map.empty, baseAttoFILReward = 100\<rparr>) ''org1'' = 150 \<and>
   150 < sint (151 :: int32) \<and>
   fst (Claim \<lparr>db = \<lparr>rewardsCol = [\<lparr>r_OrgKey = ''org1'', r_DevKey = ''dev1'',
                   r_Type = REWARD_TYPE_FIRST_BUCKET_CREATED, r_Factor = 2,
                   r_BaseAttoFILReward = 100, r_CreatedAt = 7\<rparr>], claimsCol = [\<lparr>c_OrgKey = ''org1'', c_ClaimedBy = ''alice'', c_Amount = 50, c_CreatedAt = 8\<rparr>], reads_ok = True, writes_ok = True\<rparr>,
       rewardsCacheOrg = Map.empty, rewardsCacheDev = Map.empty, baseAttoFILReward = 100\<rparr>
      \<lparr>cq_OrgKey = ''org1'', cq_ClaimedBy = ''alice'', cq_Amount = 151\<rparr> 9) = Inr ()"
proof -
  have "totalRewarded \<lparr>rewardsCol = [], claimsCol = [], reads_ok = True, writes_ok = True\<rparr> ''org1''
          = Inl NoTotalFound"
    by (simp add: totalRewarded_def mongo_group_total_def)
  then show ?thesis
    by (simp add: spec_rewarded_def spec_claimed_def Claim_cases ex_totals)
qed

text \<open>
  Claim C6, amended. \<open>Claim\<close> fails with \<open>InvalidArgument\<close> exactly when both
  aggregations return a total and the requested amount exceeds
  \<open>totalRewarded - totalClaimed\<close>, the difference of the returned totals in 32-bit
  arithmetic. When \<open>totalRewarded\<close> returns an error it fails with \<open>Internal\<close>. Whenever
  it fails the state is unchanged, so no Claim record is written. When it succeeds, the
  new state is the old one with exactly one Claim record appended, which carries the
  organization key, the claimant and the amount of the request and the current time.
\<close>

theorem claim_balance_guard:
  "(fst (Claim s req now) = Inl InvalidArgument \<longleftrightarrow>
      (\<exists>tr tc. totalRewarded (db s) (cq_OrgKey req) = Inr tr \<and>
               totalClaimed (db s) (cq_OrgKey req) = Inr tc \<and>
               sint (tr - tc) < sint (cq_Amount req))) \<and>
   ((\<exists>e. totalRewarded (db s) (cq_OrgKey req) = Inl e \<and> e \<noteq> Panic) \<longrightarrow>
      fst (Claim s req now) = Inl Internal) \<and>
   (fst (Claim s req now) \<noteq> Inr () \<longrightarrow> snd (Claim s req now) = s) \<and>
   (fst (Claim s req now) = Inr () \<longrightarrow>
      snd (Claim s req now) =
        s\<lparr>db := (db s)\<lparr>claimsCol := claimsCol (db s) @
              [\<lparr>c_OrgKey = cq_OrgKey req, c_ClaimedBy = cq_ClaimedBy req,
                c_Amount = cq_Amount req, c_CreatedAt = now\<rparr>]\<rparr>\<rparr>)"
proof -
  have 1: "fst (Claim s req now) = Inl InvalidArgument \<longleftrightarrow>
      (\<exists>tr tc. totalRewarded (db s) (cq_OrgKey req) = Inr tr \<and>
               totalClaimed (db s) (cq_OrgKey req) = Inr tc \<and>
               sint (tr - tc) < sint (cq_Amount req))"
    by (simp add: Claim_cases split: sum.splits)
  have 2: "(\<exists>e. totalRewarded (db s) (cq_OrgKey req) = Inl e \<and> e \<noteq> Panic) \<longrightarrow>
      fst (Claim s req now) = Inl Internal"
  proof
    assume "\<exists>e. totalRewarded (db s) (cq_OrgKey req) = Inl e \<and> e \<noteq> Panic"
    then obtain e where "totalRewarded (db s) (cq_OrgKey req) = Inl e" "e \<noteq> Panic" by blast
    then show "fst (Claim s req now) = Inl Internal"
      by (cases e) (simp_all add: Claim_cases)
  qed
  have 3: "fst (Claim s req now) \<noteq> Inr () \<longrightarrow> snd (Claim s req now) = s"
    by (simp add: Claim_cases split: sum.splits)
  have 4: "fst (Claim s req now) = Inr () \<longrightarrow>
      snd (Claim s req now) =
        s\<lparr>db := (db s)\<lparr>claimsCol := claimsCol (db s) @
              [\<lparr>c_OrgKey = cq_OrgKey req, c_ClaimedBy = cq_ClaimedBy req,
                c_Amount = cq_Amount req, c_CreatedAt = now\<rparr>]\<rparr>\<rparr>"
    by (simp add: Claim_cases split: sum.splits)
  show ?thesis using 1 2 3 4 by blast
qed

text \<open>
  The theorem on a ledger with one reward of 200 for \<open>org1\<close>: a claim of 201 is
  refused, a claim of 200 is written; and on empty ledgers, where the aggregation
  returns no total.
\<close>

theorem claim_balance_guard_witness:
  "fst (Claim \<lparr>db = \<lparr>rewardsCol = [\<lparr>r_OrgKey = ''org1'', r_DevKey = ''dev1'',
                   r_Type = REWARD_TYPE_FIRST_BUCKET_CREATED, r_Factor = 2,
                   r_BaseAttoFILReward = 100, r_CreatedAt = 7\<rparr>], claimsCol = [], reads_ok = True, writes_ok = True\<rparr>,
       rewardsCacheOrg = Map.empty, rewardsCacheDev = Map.empty, baseAttoFILReward = 100\<rparr>
      \<lparr>cq_OrgKey = ''org1'', cq_ClaimedBy = ''bob'', cq_Amount = 201\<rparr> 9) = Inl InvalidArgument \<and>
   snd (Claim \<lparr>db = \<lparr>rewardsCol = [\<lparr>r_OrgKey = ''org1'', r_DevKey = ''dev1'',
                   r_Type = REWARD_TYPE_FIRST_BUCKET_CREATED, r_Factor = 2,
                   r_BaseAttoFILReward = 100, r_CreatedAt = 7\<rparr>], claimsCol = [], reads_ok = True, writes_ok = True\<rparr>,
       rewardsCacheOrg = Map.empty, rewardsCacheDev = Map.empty, baseAttoFILReward = 100\<rparr>
      \<lparr>cq_OrgKey = ''org1'', cq_ClaimedBy = ''bob'', cq_Amount = 201\<rparr> 9) = \<lparr>db = \<lparr>rewardsCol = [\<lparr>r_OrgKey = ''org1'', r_DevKey = ''dev1'',
                   r_Type = REWARD_TYPE_FIRST_BUCKET_CREATED, r_Factor = 2,
                   r_BaseAttoFILReward = 100, r_CreatedAt = 7\<rparr>], claimsCol = [], reads_ok = True, writes_ok = True\<rparr>,
       rewardsCacheOrg = Map.empty, rewardsCacheDev = Map.empty, baseAttoFILReward = 100\<rparr> \<and>
   fst (Claim \<lparr>db = \<lparr>rewardsCol = [\<lparr>r_OrgKey = ''org1'', r_DevKey = ''dev1'',
                   r_Type = REWARD_TYPE_FIRST_BUCKET_CREATED, r_Factor = 2,
                   r_BaseAttoFILReward = 100, r_CreatedAt = 7\<rparr>], claimsCol = [], reads_ok = True, writes_ok = True\<rparr>,
       rewardsCacheOrg = Map.empty, rewardsCacheDev = Map.empty, baseAttoFILReward = 100\<rparr>
      \<lparr>cq_OrgKey = ''org1'', cq_ClaimedBy = ''bob'', cq_Amount = 200\<rparr> 9) = Inr () \<and>
   claimsCol (db (snd (Claim \<lparr>db = \<lparr>rewardsCol = [\<lparr>r_OrgKey = ''org1'', r_DevKey = ''dev1'',
                   r_Type = REWARD_TYPE_FIRST_BUCKET_CREATED, r_Factor = 2,
                   r_BaseAttoFILReward = 100, r_CreatedAt = 7\<rparr>], claimsCol = [], reads_ok = True, writes_ok = True\<rparr>,
       rewardsCacheOrg = Map.empty, rewardsCacheDev = Map.empty, baseAttoFILReward = 100\<rparr>
      \<lparr>cq_OrgKey = ''org1'', cq_ClaimedBy = ''bob'', cq_Amount = 200\<rparr> 9))) =
     [\<lparr>c_OrgKey = ''org1'', c_ClaimedBy = ''bob'', c_Amount = 200, c_CreatedAt = 9\<rparr>] \<and>
   fst (Claim \<lparr>db = \<lparr>rewardsCol = [], claimsCol = [], reads_ok = True, writes_ok = True\<rparr>,
       rewardsCacheOrg = Map.empty, rewardsCacheDev = Map.empty, baseAttoFILReward = 100\<rparr>
      \<lparr>cq_OrgKey = ''org1'', cq_ClaimedBy = ''bob'', cq_Amount = 0\<rparr> 9) = Inl Internal"
proof -
  have a: "fst (Claim \<lparr>db = \<lparr>rewardsCol = [\<lparr>r_OrgKey = ''org1'', r_DevKey = ''dev1'',
                   r_Type = REWARD_TYPE_FIRST_BUCKET_CREATED, r_Factor = 2,
                   r_BaseAttoFILReward = 100, r_CreatedAt = 7\<rparr>], claimsCol = [], reads_ok = True, writes_ok = True\<rparr>,
       rewardsCacheOrg = Map.empty, rewardsCacheDev = Map.empty, baseAttoFILReward = 100\<rparr>
      \<lparr>cq_OrgKey = ''org1'', cq_ClaimedBy = ''bob'', cq_Amount = 201\<rparr> 9) = Inl InvalidArgument"
    using claim_balance_guard [of "\<lparr>db = \<lparr>rewardsCol = [\<lparr>r_OrgKey = ''org1'', r_DevKey = ''dev1'',
                   r_Type = REWARD_TYPE_FIRST_BUCKET_CREATED, r_Factor = 2,
                   r_BaseAttoFILReward = 100, r_CreatedAt = 7\<rparr>], claimsCol = [], reads_ok = True, writes_ok = True\<rparr>,
       rewardsCacheOrg = Map.empty, rewardsCacheDev = Map.empty, baseAttoFILReward = 100\<rparr>"
        "\<lparr>cq_OrgKey = ''org1'', cq_ClaimedBy = ''bob'', cq_Amount = 201\<rparr>" 9]
    by (simp add: ex_totals)
  have b: "fst (Claim \<lparr>db = \<lparr>rewardsCol = [\<lparr>r_OrgKey = ''org1'', r_DevKey = ''dev1'',
                   r_Type = REWARD_TYPE_FIRST_BUCKET_CREATED, r_Factor = 2,
                   r_BaseAttoFILReward = 100, r_CreatedAt = 7\<rparr>], claimsCol = [], reads_ok = True, writes_ok = True\<rparr>,
       rewardsCacheOrg = Map.empty, rewardsCacheDev = Map.empty, baseAttoFILReward = 100\<rparr>
      \<lparr>cq_OrgKey = ''org1'', cq_ClaimedBy = ''bob'', cq_Amount = 200\<rparr> 9) = Inr ()"
    by (simp add: Claim_cases ex_totals)
  have c: "fst (Claim \<lparr>db = \<lparr>rewardsCol = [], claimsCol = [], reads_ok = True, writes_ok = True\<rparr>,
       rewardsCacheOrg = Map.empty, rewardsCacheDev = Map.empty, baseAttoFILReward = 100\<rparr>
      \<lparr>cq_OrgKey = ''org1'', cq_ClaimedBy = ''bob'', cq_Amount = 0\<rparr> 9) = Inl Internal"
    using claim_balance_guard [of "\<lparr>db = \<lparr>rewardsCol = [], claimsCol = [], reads_ok = True, writes_ok = True\<rparr>,
       rewardsCacheOrg = Map.empty, rewardsCacheDev = Map.empty, baseAttoFILReward = 100\<rparr>"
        "\<lparr>cq_OrgKey = ''org1'', cq_ClaimedBy = ''bob'', cq_Amount = 0\<rparr>" 9]
    by (simp add: totalRewarded_def mongo_group_total_def)
  show ?thesis
    using a b c
      claim_balance_guard [of "\<lparr>db = \<lparr>rewardsCol = [\<lparr>r_OrgKey = ''org1'', r_DevKey = ''dev1'',
                   r_Type = REWARD_TYPE_FIRST_BUCKET_CREATED, r_Factor = 2,
                   r_BaseAttoFILReward = 100, r_CreatedAt = 7\<rparr>], claimsCol = [], reads_ok = True, writes_ok = True\<rparr>,
       rewardsCacheOrg = Map.empty, rewardsCacheDev = Map.empty, baseAttoFILReward = 100\<rparr>"
        "\<lparr>cq_OrgKey = ''org1'', cq_ClaimedBy = ''bob'', cq_Amount = 201\<rparr>" 9]
      claim_balance_guard [of "\<lparr>db = \<lparr>rewardsCol = [\<lparr>r_OrgKey = ''org1'', r_DevKey = ''dev1'',
                   r_Type = REWARD_TYPE_FIRST_BUCKET_CREATED, r_Factor = 2,
                   r_BaseAttoFILReward = 100, r_CreatedAt = 7\<rparr>], claimsCol = [], reads_ok = True, writes_ok = True\<rparr>,
       rewardsCacheOrg = Map.empty, rewardsCacheDev = Map.empty, baseAttoFILReward = 100\<rparr>"
        "\<lparr>cq_OrgKey = ''org1'', cq_ClaimedBy = ''bob'', cq_Amount = 200\<rparr>" 9]
    by simp
qed

text \<open>
  Claim C10, at an input on which the code and the claim differ. A claim of -50 for
  \<open>org1\<close> succeeds and is written, as the claim says. The balance computed afterwards
  is the one computed before, 200 available: \<open>totalClaimed\<close> does not read the claims
  collection, so the negative claim does not increase it.
\<close>

theorem negative_claim_leaves_balance:
  "fst (Claim \<lparr>db = \<lparr>rewardsCol = [\<lparr>r_OrgKey = ''org1'', r_DevKey = ''dev1'',
                   r_Type = REWARD_TYPE_FIRST_BUCKET_CREATED, r_Factor = 2,
                   r_BaseAttoFILReward = 100, r_CreatedAt = 7\<rparr>], claimsCol = [], reads_ok = True, writes_ok = True\<rparr>,
       rewardsCacheOrg = Map.empty, rewardsCacheDev = Map.empty, baseAttoFILReward = 100\<rparr>
      \<lparr>cq_OrgKey = ''org1'', cq_ClaimedBy = ''alice'', cq_Amount = - 50\<rparr> 9) = Inr () \<and>
   claimsCol (db (snd (Claim \<lparr>db = \<lparr>rewardsCol = [\<lparr>r_OrgKey = ''org1'', r_DevKey = ''dev1'',
                   r_Type = REWARD_TYPE_FIRST_BUCKET_CREATED, r_Factor = 2,
                   r_BaseAttoFILReward = 100, r_CreatedAt = 7\<rparr>], claimsCol = [], reads_ok = True, writes_ok = True\<rparr>,
       rewardsCacheOrg = Map.empty, rewardsCacheDev = Map.empty, baseAttoFILReward = 100\<rparr>
      \<lparr>cq_OrgKey = ''org1'', cq_ClaimedBy = ''alice'', cq_Amount = - 50\<rparr> 9))) =
     [\<lparr>c_OrgKey = ''org1'', c_ClaimedBy = ''alice'', c_Amount = - 50, c_CreatedAt = 9\<rparr>] \<and>
   Balance \<lparr>db = \<lparr>rewardsCol = [\<lparr>r_OrgKey = ''org1'', r_DevKey = ''dev1'',
                   r_Type = REWARD_TYPE_FIRST_BUCKET_CREATED, r_Factor = 2,
                   r_BaseAttoFILReward = 100, r_CreatedAt = 7\<rparr>], claimsCol = [], reads_ok = True, writes_ok = True\<rparr>,
       rewardsCacheOrg = Map.empty, rewardsCacheDev = Map.empty, baseAttoFILReward = 100\<rparr> \<lparr>bq_OrgKey = ''org1''\<rparr> =
     Inr \<lparr>b_Rewarded = 200, b_Claimed = 0, b_Available = 200\<rparr> \<and>
   Balance (snd (Claim \<lparr>db = \<lparr>rewardsCol = [\<lparr>r_OrgKey = ''org1'', r_DevKey = ''dev1'',
                   r_Type = REWARD_TYPE_FIRST_BUCKET_CREATED, r_Factor = 2,
                   r_BaseAttoFILReward = 100, r_CreatedAt = 7\<rparr>], claimsCol = [], reads_ok = True, writes_ok = True\<rparr>,
       rewardsCacheOrg = Map.empty, rewardsCacheDev = Map.empty, baseAttoFILReward = 100\<rparr>
      \<lparr>cq_OrgKey = ''org1'', cq_ClaimedBy = ''alice'', cq_Amount = - 50\<rparr> 9)) \<lparr>bq_OrgKey = ''org1''\<rparr> =
     Inr \<lparr>b_Rewarded = 200, b_Claimed = 0, b_Available = 200\<rparr>"
  by (simp add: Claim_cases Balance_def ex_totals)

subsection \<open>Seeding the cache\<close>

text \<open>
  A call of \<open>ProcessAnalyticsEvent\<close> keeps the cache within the ledger: it is the
  loop of \<open>New\<close> that can leave it.
\<close>

lemma ProcessAnalyticsEvent_no_attempt:
  assumes "pe_OrgKey req = [] \<or> pe_AnalyticsEvent req = EVENT_UNSPECIFIED \<or>
           event_reward_type (pe_AnalyticsEvent req) = REWARD_TYPE_UNSPECIFIED \<or>
           granted (rewardsCacheOrg s) (pe_OrgKey req) (event_reward_type (pe_AnalyticsEvent req)) \<or>
           granted (rewardsCacheDev s) (pe_DevKey req) (event_reward_type (pe_AnalyticsEvent req))"
    and "ProcessAnalyticsEvent s req now = (res, s')"
  shows "db s' = db s \<and>
         (\<forall>k u. granted (rewardsCacheOrg s') k u = granted (rewardsCacheOrg s) k u) \<and>
         (\<forall>k u. granted (rewardsCacheDev s') k u = granted (rewardsCacheDev s) k u)"
  using assms by (auto simp: ProcessAnalyticsEvent_def Let_def split: if_splits)

lemma ProcessAnalyticsEvent_cache_in_ledger:
  assumes inv: "cache_in_ledger s" and run: "ProcessAnalyticsEvent s req now = (res, s')"
  shows "cache_in_ledger s'"
proof -
  define t where "t = event_reward_type (pe_AnalyticsEvent req)"
  define r where "r = \<lparr>r_OrgKey = pe_OrgKey req, r_DevKey = pe_DevKey req, r_Type = t,
              r_Factor = meta_factor t, r_BaseAttoFILReward = baseAttoFILReward s,
              r_CreatedAt = now\<rparr>"
  show ?thesis
  proof (cases "pe_OrgKey req \<noteq> [] \<and> pe_AnalyticsEvent req \<noteq> EVENT_UNSPECIFIED \<and>
                t \<noteq> REWARD_TYPE_UNSPECIFIED \<and> \<not> granted (rewardsCacheOrg s) (pe_OrgKey req) t \<and>
                \<not> granted (rewardsCacheDev s) (pe_DevKey req) t")
    case False
    then have "db s' = db s \<and>
         (\<forall>k u. granted (rewardsCacheOrg s') k u = granted (rewardsCacheOrg s) k u) \<and>
         (\<forall>k u. granted (rewardsCacheDev s') k u = granted (rewardsCacheDev s) k u)"
      using ProcessAnalyticsEvent_no_attempt [OF _ run] unfolding t_def by blast
    then show ?thesis using inv by (simp add: cache_in_ledger_def)
  next
    case True
    then have a: "case rewards_InsertOne (db s) r of
           Inl e \<Rightarrow> res = Inl Internal \<and> db s' = db s \<and>
             (\<forall>k u. granted (rewardsCacheOrg s') k u = granted (rewardsCacheOrg s) k u) \<and>
             (\<forall>k u. granted (rewardsCacheDev s') k u = granted (rewardsCacheDev s) k u)
         | Inr d \<Rightarrow> res = Inr (Some (toPbReward r)) \<and> db s' = d \<and>
             (\<forall>k u. granted (rewardsCacheOrg s') k u =
                (granted (rewardsCacheOrg s) k u \<or> (k = pe_OrgKey req \<and> u = t))) \<and>
             (\<forall>k u. granted (rewardsCacheDev s') k u =
                (granted (rewardsCacheDev s) k u \<or> (k = pe_DevKey req \<and> u = t)))"
      using ProcessAnalyticsEvent_attempt [OF _ _ t_def [symmetric] _ _ _ r_def run] by blast
    show ?thesis
    proof (cases "rewards_InsertOne (db s) r")
      case (Inl e)
      then show ?thesis using a inv by (simp add: cache_in_ledger_def)
    next
      case (Inr d)
      then have "rewardsCol (db s') = rewardsCol (db s) @ [r]"
        using a rewards_InsertOne_Inr [OF Inr] by simp
      moreover have "r_OrgKey r = pe_OrgKey req" "r_DevKey r = pe_DevKey req" "r_Type r = t"
        by (simp_all add: r_def)
      ultimately show ?thesis
        using a inv Inr unfolding cache_in_ledger_def by auto
    qed
  qed
qed

text \<open>
  Claim C3, at two ledgers on which the code and the claim differ. With one reward of
  organization \<open>org1\<close> and developer \<open>dev1\<close>, the second assignment of the loop goes to
  \<^verbatim>\<open>cacheOrg["dev1"]\<close>, a nil map, and \<open>New\<close> panics. With one reward whose two keys
  are both \<open>k\<close>, \<open>New\<close> returns, and the pair of the developer key is not marked in the
  developer cache.
\<close>

theorem seed_writes_dev_key_into_org_cache:
  "New \<lparr>BaseAttoFILReward = 100\<rparr>
       \<lparr>rewardsCol = [\<lparr>r_OrgKey = ''org1'', r_DevKey = ''dev1'',
                   r_Type = REWARD_TYPE_FIRST_BUCKET_CREATED, r_Factor = 2,
                   r_BaseAttoFILReward = 100, r_CreatedAt = 7\<rparr>],
        claimsCol = [], reads_ok = True, writes_ok = True\<rparr> = Inl Panic \<and>
   (case New \<lparr>BaseAttoFILReward = 100\<rparr>
       \<lparr>rewardsCol = [\<lparr>r_OrgKey = ''k'', r_DevKey = ''k'',
                   r_Type = REWARD_TYPE_FIRST_BUCKET_CREATED, r_Factor = 2,
                   r_BaseAttoFILReward = 100, r_CreatedAt = 7\<rparr>],
        claimsCol = [], reads_ok = True, writes_ok = True\<rparr> of
      Inl e \<Rightarrow> False
    | Inr s \<Rightarrow> granted (rewardsCacheOrg s) ''k'' REWARD_TYPE_FIRST_BUCKET_CREATED \<and>
              \<not> granted (rewardsCacheDev s) ''k'' REWARD_TYPE_FIRST_BUCKET_CREATED)"
  by (simp add: New_def ensureKeyRewardCache_def set_granted_def granted_def)

text \<open>
  Claim C4, at a run on which the code and the claim differ. A service on an empty
  ledger grants the first-organization reward to organization \<open>a\<close> and developer \<open>a\<close>,
  then the first-bucket reward to organization \<open>b\<close> and developer \<open>a\<close>. A service
  started on the resulting ledger marks the pair of \<open>a\<close> and the first-bucket type in
  its organization cache, and the ledger holds no reward of organization \<open>a\<close> with that
  type.
\<close>

theorem restart_marks_pair_without_reward:
  "(case New \<lparr>BaseAttoFILReward = 100\<rparr>
           \<lparr>rewardsCol = [], claimsCol = [], reads_ok = True, writes_ok = True\<rparr> of
      Inl e \<Rightarrow> False
    | Inr s0 \<Rightarrow>
       (case ProcessAnalyticsEvent s0
               \<lparr>pe_OrgKey = ''a'', pe_DevKey = ''a'', pe_AnalyticsEvent = EVENT_ORG_CREATED\<rparr> 1 of
          (res1, s1) \<Rightarrow>
           (case ProcessAnalyticsEvent s1
                   \<lparr>pe_OrgKey = ''b'', pe_DevKey = ''a'', pe_AnalyticsEvent = EVENT_BUCKET_CREATED\<rparr> 2 of
              (res2, s2) \<Rightarrow>
               (case New \<lparr>BaseAttoFILReward = 100\<rparr> (db s2) of
                  Inl e \<Rightarrow> False
                | Inr s3 \<Rightarrow>
                    res1 \<noteq> Inr None \<and> res2 \<noteq> Inr None \<and>
                    length (rewardsCol (db s3)) = 2 \<and>
                    granted (rewardsCacheOrg s3) ''a'' REWARD_TYPE_FIRST_BUCKET_CREATED \<and>
                    \<not> (\<exists>r \<in> set (rewardsCol (db s3)).
                          r_OrgKey r = ''a'' \<and> r_Type r = REWARD_TYPE_FIRST_BUCKET_CREATED)))))"
  by (simp add: New_def ensureKeyRewardCache_def set_granted_def granted_def
      ProcessAnalyticsEvent_def Let_def rewards_InsertOne_def meta_factor_def)

subsection \<open>Pagination\<close>

text \<open>
  \<open>beyond\<close> is a strict order on creation times in either direction, and the sort of a
  query orders records with distinct creation times strictly along it.
\<close>

lemma beyond_irrefl [simp]: "\<not> beyond asc t t"
  by (simp add: beyond_def)

lemma beyond_asym: "beyond asc a b \<Longrightarrow> \<not> beyond asc b a"
  by (simp add: beyond_def split: if_splits)

lemma beyond_trans: "beyond asc a b \<Longrightarrow> beyond asc b c \<Longrightarrow> beyond asc a c"
  by (simp add: beyond_def split: if_splits)

lemma set_mongo_sort [simp]: "set (mongo_sort key dir xs) = set xs"
  by (simp add: mongo_sort_def)

lemma length_mongo_sort [simp]: "length (mongo_sort key dir xs) = length xs"
  by (simp add: mongo_sort_def)

lemma filter_mongo_sort:
  "filter p (mongo_sort key dir xs) = mongo_sort key dir (filter p xs)"
  by (simp add: mongo_sort_def filter_sort)

lemma distinct_map_sort_key:
  assumes "distinct (map g xs)"
  shows "distinct (map g (sort_key f xs))"
  using assms by (simp add: distinct_map)

lemma sorted_wrt_mongo_sort:
  assumes "distinct (map key xs)"
  shows "sorted_wrt (\<lambda>a b. beyond asc (key a) (key b))
           (mongo_sort key (if asc then 1 else - 1) xs)"
proof (cases asc)
  case True
  have "sorted (map key (sort_key key xs))" by simp
  moreover have "distinct (map key (sort_key key xs))"
    using assms by (rule distinct_map_sort_key)
  ultimately have "sorted_wrt (<) (map key (sort_key key xs))"
    by (simp add: strict_sorted_iff)
  then show ?thesis using True
    by (simp add: mongo_sort_def sorted_wrt_map beyond_def)
next
  case False
  let ?n = "\<lambda>x. - key x"
  have "inj_on ?n (set xs)"
    using assms by (auto simp: distinct_map inj_on_def)
  then have "distinct (map ?n xs)" using assms by (simp add: distinct_map)
  then have "distinct (map ?n (sort_key ?n xs))" by (rule distinct_map_sort_key)
  moreover have "sorted (map ?n (sort_key ?n xs))" by simp
  ultimately have "sorted_wrt (<) (map ?n (sort_key ?n xs))"
    by (simp add: strict_sorted_iff)
  then show ?thesis using False
    by (simp add: mongo_sort_def sorted_wrt_map beyond_def)
qed

text \<open>
  In a strictly ordered list, the records beyond the last one of a non-empty prefix are
  exactly the rest of the list.
\<close>

lemma filter_beyond_last:
  assumes "sorted_wrt (\<lambda>a b. beyond asc (key a) (key b)) (A @ B)" and "A \<noteq> []"
  shows "filter (\<lambda>x. beyond asc (key (last A)) (key x)) (A @ B) = B"
proof -
  let ?R = "\<lambda>a b. beyond asc (key a) (key b)"
  have sA: "sorted_wrt ?R A" and AB: "\<forall>x \<in> set A. \<forall>y \<in> set B. ?R x y"
    using assms(1) by (simp_all add: sorted_wrt_append)
  have "last A \<in> set A" using assms(2) by simp
  then have B: "\<forall>y \<in> set B. beyond asc (key (last A)) (key y)" using AB by blast
  have "sorted_wrt ?R (butlast A @ [last A])" using sA assms(2) by simp
  then have "\<forall>x \<in> set (butlast A). beyond asc (key x) (key (last A))"
    by (simp add: sorted_wrt_append)
  then have "\<forall>x \<in> set (butlast A @ [last A]). \<not> beyond asc (key (last A)) (key x)"
    by (auto dest: beyond_asym)
  then have A: "\<forall>x \<in> set A. \<not> beyond asc (key (last A)) (key x)"
    using assms(2) by simp
  have "filter (\<lambda>x. beyond asc (key (last A)) (key x)) A = []"
    using A by (simp add: filter_empty_conv)
  moreover have "filter (\<lambda>x. beyond asc (key (last A)) (key x)) B = B"
    using B by (simp add: filter_id_conv)
  ultimately show ?thesis by simp
qed


text \<open>
  The comparison a handler puts on \<^verbatim>\<open>created_at\<close>. With a cursor it looks in the
  requested direction. The probe looks the same way unless the request is ascending
  and has no cursor.
\<close>

lemma cursor_matches:
  "created_at_matches (map_option (Pair (if c \<noteq> None \<and> asc then Gt else Lt)) c) t =
     (case c of None \<Rightarrow> True | Some u \<Rightarrow> beyond asc u t)"
  by (cases c) (simp_all add: beyond_def)

lemma probe_matches:
  "asc \<longrightarrow> c \<noteq> None \<Longrightarrow>
   created_at_matches (Some (if c \<noteq> None \<and> asc then Gt else Lt, l)) t = beyond asc l t"
  by (simp add: beyond_def)

lemma list_page_eq:
  assumes "asc \<longrightarrow> c \<noteq> None"
  shows "list_page P key asc lim col c =
     (let xs = (if 0 < lim then take (nat lim) (records_beyond P key asc col c)
                else records_beyond P key asc col c)
      in if xs = [] then ([], False, None)
         else if \<exists>x \<in> set col. P x \<and> beyond asc (key (last xs)) (key x)
           then (xs, True, Some (key (last xs)))
           else (xs, False, None))"
  unfolding list_page_def records_beyond_def mongo_Find_def Let_def cursor_matches
    probe_matches [OF assms]
  by simp

lemma list_page_unbounded:
  "fst (list_page P key asc 0 col c) = records_beyond P key asc col c"
  unfolding list_page_def records_beyond_def mongo_Find_def Let_def cursor_matches
  by simp

text \<open>
  A page is a prefix of the records beyond its cursor, and the records beyond the
  cursor it returns are the rest.
\<close>

lemma sorted_records_beyond:
  assumes "distinct (map key (filter P col))"
  shows "sorted_wrt (\<lambda>a b. beyond asc (key a) (key b)) (records_beyond P key asc col c)"
proof -
  let ?cur = "\<lambda>x. case c of None \<Rightarrow> True | Some t \<Rightarrow> beyond asc t (key x)"
  have "filter (\<lambda>x. P x \<and> ?cur x) col = filter ?cur (filter P col)"
    by (simp add: conj_commute)
  moreover have "distinct (map key (filter ?cur (filter P col)))"
    using assms by (rule distinct_map_filter)
  ultimately have "distinct (map key (filter (\<lambda>x. P x \<and> ?cur x) col))" by simp
  then show ?thesis
    unfolding records_beyond_def by (rule sorted_wrt_mongo_sort)
qed

lemma records_beyond_next:
  assumes d: "distinct (map key (filter P col))"
    and split: "records_beyond P key asc col c = A @ B" and ne: "A \<noteq> []"
  shows "records_beyond P key asc col (Some (key (last A))) = B"
proof -
  let ?k = "key (last A)"
  let ?cur = "\<lambda>x. case c of None \<Rightarrow> True | Some t \<Rightarrow> beyond asc t (key x)"
  have "last A \<in> set (records_beyond P key asc col c)"
    using split ne by simp
  then have cl: "?cur (last A)"
    by (simp add: records_beyond_def)
  have imp: "\<And>x. beyond asc ?k (key x) \<Longrightarrow> ?cur x"
    using cl by (cases c) (auto intro: beyond_trans)
  have "filter (\<lambda>x. beyond asc ?k (key x)) (records_beyond P key asc col c)
          = mongo_sort key (if asc then 1 else - 1)
              (filter (\<lambda>x. (P x \<and> ?cur x) \<and> beyond asc ?k (key x)) col)"
    by (simp add: records_beyond_def filter_mongo_sort conj_commute)
  also have "filter (\<lambda>x. (P x \<and> ?cur x) \<and> beyond asc ?k (key x)) col
          = filter (\<lambda>x. P x \<and> beyond asc ?k (key x)) col"
    by (rule filter_cong) (auto dest: imp)
  finally have "filter (\<lambda>x. beyond asc ?k (key x)) (records_beyond P key asc col c)
          = records_beyond P key asc col (Some ?k)"
    by (simp add: records_beyond_def)
  moreover have "filter (\<lambda>x. beyond asc ?k (key x)) (A @ B) = B"
    using sorted_records_beyond [OF d, of asc c] ne unfolding split
    by (rule filter_beyond_last)
  ultimately show ?thesis using split by simp
qed

lemma probe_iff:
  "(\<exists>x \<in> set col. P x \<and> beyond asc k (key x)) \<longleftrightarrow> records_beyond P key asc col (Some k) \<noteq> []"
proof -
  have "set (records_beyond P key asc col (Some k)) = {x \<in> set col. P x \<and> beyond asc k (key x)}"
    by (simp add: records_beyond_def)
  then show ?thesis
    by (metis (mono_tags, lifting) empty_Collect_eq set_empty)
qed

text \<open>
  Following the cursor, for any page function that is \<open>list_page\<close> up to a conversion
  \<open>f\<close> of the records: by induction on the fuel, for every cursor.
\<close>

lemma follow_pages_all:
  assumes d: "distinct (map key (filter P col))"
    and page: "\<And>c. page c = Inr (case list_page P key asc lim col c of
                                   (xs, m, n) \<Rightarrow> (map f xs, m, n))"
  shows "(asc \<longrightarrow> c \<noteq> None) \<Longrightarrow> length (records_beyond P key asc col c) < fuel \<Longrightarrow>
         follow_pages fuel page c = Some (map f (records_beyond P key asc col c))"
proof (induction fuel arbitrary: c)
  case 0
  then show ?case by simp
next
  case (Suc fuel)
  let ?U = "records_beyond P key asc col"
  define xs where "xs = (if 0 < lim then take (nat lim) (?U c) else ?U c)"
  define B where "B = (if 0 < lim then drop (nat lim) (?U c) else [])"
  have split: "?U c = xs @ B" by (simp add: xs_def B_def)
  have lp: "list_page P key asc lim col c =
     (if xs = [] then ([], False, None)
      else if \<exists>x \<in> set col. P x \<and> beyond asc (key (last xs)) (key x)
        then (xs, True, Some (key (last xs)))
        else (xs, False, None))"
    unfolding list_page_eq [OF Suc.prems(1)] Let_def xs_def by (rule refl)
  show ?case
  proof (cases "xs = []")
    case True
    then have "?U c = []" by (auto simp: xs_def split: if_splits)
    moreover have "page c = Inr ([], False, None)"
      unfolding page lp using True by simp
    ultimately show ?thesis by simp
  next
    case False
    have nxt: "?U (Some (key (last xs))) = B"
      using records_beyond_next [OF d split False] .
    show ?thesis
    proof (cases "B = []")
      case True
      then have "\<not> (\<exists>x \<in> set col. P x \<and> beyond asc (key (last xs)) (key x))"
        using nxt by (simp add: probe_iff)
      then have "page c = Inr (map f xs, False, None)"
        unfolding page lp using False by simp
      then show ?thesis using split True by simp
    next
      case nonempty: False
      then have pr: "\<exists>x \<in> set col. P x \<and> beyond asc (key (last xs)) (key x)"
        using nxt by (simp add: probe_iff)
      have "length B < length (?U c)" using split False by simp
      then have "length (?U (Some (key (last xs)))) < fuel"
        using Suc.prems(2) nxt by simp
      then have "follow_pages fuel page (Some (key (last xs))) = Some (map f B)"
        using Suc.IH [of "Some (key (last xs))"] nxt by simp
      moreover have "page c = Inr (map f xs, True, Some (key (last xs)))"
        unfolding page lp using False pr by simp
      ultimately show ?thesis using split by simp
    qed
  qed
qed


text \<open>The two handlers are \<open>list_page\<close> on their collection and filter.\<close>

lemma FindOne_case:
  "(case mongo_FindOne p col of None \<Rightarrow> a | Some y \<Rightarrow> b) = (if \<exists>x \<in> set col. p x then b else a)"
proof (cases "find p col")
  case None
  then have "\<not> (\<exists>x \<in> set col. p x)" by (simp add: find_None_iff)
  then show ?thesis using None by (simp add: mongo_FindOne_def)
next
  case (Some y)
  then have "\<exists>x \<in> set col. p x" by (metis find_Some_iff nth_mem)
  then show ?thesis using Some by (simp add: mongo_FindOne_def)
qed

lemma reward_matches_created_at:
  "reward_matches (rewards_request_filter req\<lparr>f_created_at := c\<rparr>) =
     (\<lambda>x. reward_matches (rewards_request_filter req) x \<and> created_at_matches c (r_CreatedAt x))"
  by (rule ext) (simp add: reward_matches_def rewards_request_filter_def)

lemma claim_matches_created_at:
  "claim_matches (claims_request_filter req\<lparr>g_created_at := c\<rparr>) =
     (\<lambda>x. claim_matches (claims_request_filter req) x \<and> created_at_matches c (c_CreatedAt x))"
  by (rule ext) (simp add: claim_matches_def claims_request_filter_def)

lemma ListRewards_list_page:
  assumes "reads_ok (db s)"
  shows "ListRewards s req =
     (case list_page (reward_matches (rewards_request_filter req)) r_CreatedAt
             (lr_Ascending req) (lr_Limit req) (rewardsCol (db s)) (lr_StartAt req) of
        (xs, m, n) \<Rightarrow> Inr \<lparr>lr_Rewards = map toPbReward xs, lr_More = m, lr_MoreStartAt = n\<rparr>)"
  unfolding ListRewards_def rewards_request_filter_def [symmetric]
  using assms
  by (cases "lr_StartAt req")
     (auto simp: Let_def list_page_def reward_matches_created_at FindOne_case)

lemma ListClaims_list_page:
  assumes "reads_ok (db s)"
  shows "ListClaims s req =
     (case list_page (claim_matches (claims_request_filter req)) c_CreatedAt
             (lc_Ascending req) (lc_Limit req) (claimsCol (db s)) (lc_StartAt req) of
        (xs, m, n) \<Rightarrow> Inr \<lparr>lc_Claims = map toPbClaim xs, lc_More = m, lc_MoreStartAt = n\<rparr>)"
  unfolding ListClaims_def claims_request_filter_def [symmetric]
  using assms
  by (cases "lc_StartAt req")
     (auto simp: Let_def list_page_def claim_matches_created_at FindOne_case)


text \<open>The two halves of the pagination property, for each ledger.\<close>

lemma list_page_more:
  assumes "asc \<longrightarrow> c \<noteq> None" and "list_page P key asc lim col c = (xs, m, n)"
  shows "m \<longleftrightarrow> xs \<noteq> [] \<and> (\<exists>x \<in> set col. P x \<and> beyond asc (key (last xs)) (key x))"
  using assms(2) unfolding list_page_eq [OF assms(1)] Let_def
  by (auto split: if_splits)

lemma length_records_beyond: "length (records_beyond P key asc col c) \<le> length col"
  by (simp add: records_beyond_def)

lemma rewards_request_filter_upd [simp]:
  "rewards_request_filter (req\<lparr>lr_StartAt := c\<rparr>) = rewards_request_filter req"
  "rewards_request_filter (req\<lparr>lr_Limit := l\<rparr>) = rewards_request_filter req"
  by (simp_all add: rewards_request_filter_def)

lemma claims_request_filter_upd [simp]:
  "claims_request_filter (req\<lparr>lc_StartAt := c\<rparr>) = claims_request_filter req"
  "claims_request_filter (req\<lparr>lc_Limit := l\<rparr>) = claims_request_filter req"
  by (simp_all add: claims_request_filter_def)

lemma ListRewards_has_more:
  assumes "reads_ok (db s)" and "lr_Ascending rq \<longrightarrow> lr_StartAt rq \<noteq> None"
  shows "\<exists>resp. ListRewards s rq = Inr resp \<and>
           (lr_More resp \<longleftrightarrow>
              lr_Rewards resp \<noteq> [] \<and>
              (\<exists>r \<in> set (rewardsCol (db s)). reward_matches (rewards_request_filter rq) r \<and>
                 beyond (lr_Ascending rq) (pbr_CreatedAt (last (lr_Rewards resp))) (r_CreatedAt r)))"
proof -
  obtain xs m n where lp:
    "list_page (reward_matches (rewards_request_filter rq)) r_CreatedAt (lr_Ascending rq)
       (lr_Limit rq) (rewardsCol (db s)) (lr_StartAt rq) = (xs, m, n)"
    by (metis prod_cases3)
  have resp: "ListRewards s rq = Inr \<lparr>lr_Rewards = map toPbReward xs, lr_More = m, lr_MoreStartAt = n\<rparr>"
    using ListRewards_list_page [OF assms(1), of rq] lp by simp
  have "xs \<noteq> [] \<Longrightarrow> pbr_CreatedAt (last (map toPbReward xs)) = r_CreatedAt (last xs)"
    by (simp add: last_map toPbReward_def)
  then show ?thesis
    using resp list_page_more [OF assms(2) lp] by auto
qed

lemma ListClaims_has_more:
  assumes "reads_ok (db s)" and "lc_Ascending cq \<longrightarrow> lc_StartAt cq \<noteq> None"
  shows "\<exists>resp. ListClaims s cq = Inr resp \<and>
           (lc_More resp \<longleftrightarrow>
              lc_Claims resp \<noteq> [] \<and>
              (\<exists>c \<in> set (claimsCol (db s)). claim_matches (claims_request_filter cq) c \<and>
                 beyond (lc_Ascending cq) (pbc_CreatedAt (last (lc_Claims resp))) (c_CreatedAt c)))"
proof -
  obtain xs m n where lp:
    "list_page (claim_matches (claims_request_filter cq)) c_CreatedAt (lc_Ascending cq)
       (lc_Limit cq) (claimsCol (db s)) (lc_StartAt cq) = (xs, m, n)"
    by (metis prod_cases3)
  have resp: "ListClaims s cq = Inr \<lparr>lc_Claims = map toPbClaim xs, lc_More = m, lc_MoreStartAt = n\<rparr>"
    using ListClaims_list_page [OF assms(1), of cq] lp by simp
  have "xs \<noteq> [] \<Longrightarrow> pbc_CreatedAt (last (map toPbClaim xs)) = c_CreatedAt (last xs)"
    by (simp add: last_map toPbClaim_def)
  then show ?thesis
    using resp list_page_more [OF assms(2) lp] by auto
qed

lemma ListRewards_round_trip:
  assumes r: "reads_ok (db s)" and dir: "lr_Ascending rq \<longrightarrow> lr_StartAt rq \<noteq> None"
    and d: "distinct (map r_CreatedAt
              (filter (reward_matches (rewards_request_filter rq)) (rewardsCol (db s))))"
    and fuel: "length (rewardsCol (db s)) < fuel"
  shows "\<exists>resp. ListRewards s (rq\<lparr>lr_Limit := 0\<rparr>) = Inr resp \<and>
           follow_pages fuel (ListRewards_page s rq) (lr_StartAt rq) = Some (lr_Rewards resp)"
proof -
  let ?P = "reward_matches (rewards_request_filter rq)"
  let ?U = "records_beyond ?P r_CreatedAt (lr_Ascending rq) (rewardsCol (db s))"
  have page: "\<And>c. ListRewards_page s rq c =
      Inr (case list_page ?P r_CreatedAt (lr_Ascending rq) (lr_Limit rq) (rewardsCol (db s)) c of
             (xs, m, n) \<Rightarrow> (map toPbReward xs, m, n))"
    by (simp add: ListRewards_page_def ListRewards_list_page [OF r] split: prod.splits)
  have "length (?U (lr_StartAt rq)) < fuel"
    using length_records_beyond [of ?P r_CreatedAt "lr_Ascending rq" "rewardsCol (db s)" "lr_StartAt rq"]
      fuel by simp
  then have f: "follow_pages fuel (ListRewards_page s rq) (lr_StartAt rq)
                  = Some (map toPbReward (?U (lr_StartAt rq)))"
    using follow_pages_all [OF d page dir] by simp
  obtain xs m n where lp:
    "list_page ?P r_CreatedAt (lr_Ascending rq) 0 (rewardsCol (db s)) (lr_StartAt rq) = (xs, m, n)"
    by (metis prod_cases3)
  then have "xs = ?U (lr_StartAt rq)"
    using list_page_unbounded [of ?P r_CreatedAt "lr_Ascending rq" "rewardsCol (db s)" "lr_StartAt rq"]
    by simp
  moreover have "ListRewards s (rq\<lparr>lr_Limit := 0\<rparr>) =
      Inr \<lparr>lr_Rewards = map toPbReward xs, lr_More = m, lr_MoreStartAt = n\<rparr>"
    using ListRewards_list_page [OF r, of "rq\<lparr>lr_Limit := 0\<rparr>"] lp by simp
  ultimately show ?thesis using f by simp
qed

lemma ListClaims_round_trip:
  assumes r: "reads_ok (db s)" and dir: "lc_Ascending cq \<longrightarrow> lc_StartAt cq \<noteq> None"
    and d: "distinct (map c_CreatedAt
              (filter (claim_matches (claims_request_filter cq)) (claimsCol (db s))))"
    and fuel: "length (claimsCol (db s)) < fuel"
  shows "\<exists>resp. ListClaims s (cq\<lparr>lc_Limit := 0\<rparr>) = Inr resp \<and>
           follow_pages fuel (ListClaims_page s cq) (lc_StartAt cq) = Some (lc_Claims resp)"
proof -
  let ?P = "claim_matches (claims_request_filter cq)"
  let ?U = "records_beyond ?P c_CreatedAt (lc_Ascending cq) (claimsCol (db s))"
  have page: "\<And>c. ListClaims_page s cq c =
      Inr (case list_page ?P c_CreatedAt (lc_Ascending cq) (lc_Limit cq) (claimsCol (db s)) c of
             (xs, m, n) \<Rightarrow> (map toPbClaim xs, m, n))"
    by (simp add: ListClaims_page_def ListClaims_list_page [OF r] split: prod.splits)
  have "length (?U (lc_StartAt cq)) < fuel"
    using length_records_beyond [of ?P c_CreatedAt "lc_Ascending cq" "claimsCol (db s)" "lc_StartAt cq"]
      fuel by simp
  then have f: "follow_pages fuel (ListClaims_page s cq) (lc_StartAt cq)
                  = Some (map toPbClaim (?U (lc_StartAt cq)))"
    using follow_pages_all [OF d page dir] by simp
  obtain xs m n where lp:
    "list_page ?P c_CreatedAt (lc_Ascending cq) 0 (claimsCol (db s)) (lc_StartAt cq) = (xs, m, n)"
    by (metis prod_cases3)
  then have "xs = ?U (lc_StartAt cq)"
    using list_page_unbounded [of ?P c_CreatedAt "lc_Ascending cq" "claimsCol (db s)" "lc_StartAt cq"]
    by simp
  moreover have "ListClaims s (cq\<lparr>lc_Limit := 0\<rparr>) =
      Inr \<lparr>lc_Claims = map toPbClaim xs, lc_More = m, lc_MoreStartAt = n\<rparr>"
    using ListClaims_list_page [OF r, of "cq\<lparr>lc_Limit := 0\<rparr>"] lp by simp
  ultimately show ?thesis using f by simp
qed

text \<open>
  Claim C5 does not hold for every ledger and direction. Two claims of \<open>org1\<close> carry
  the same creation time 5: the descending listing with limit 1 returns one of them and
  the probe, strict on the creation time, finds nothing below 5, so the pages end after
  one record while the unbounded query returns two. And with creation times 1 and 2 the
  ascending listing with limit 1 and no cursor returns the first claim with
  \<open>lc_More = False\<close>, although the second lies beyond it: without a cursor the
  handler keeps the comparison \<^verbatim>\<open>$lt\<close> for its probe.
\<close>

theorem pagination_counterexample:
  "follow_pages 3 (ListClaims_page \<lparr>db = \<lparr>rewardsCol = [],
       claimsCol = [\<lparr>c_OrgKey = ''org1'', c_ClaimedBy = ''alice'', c_Amount = 10, c_CreatedAt = 5\<rparr>, \<lparr>c_OrgKey = ''org1'', c_ClaimedBy = ''alice'', c_Amount = 10, c_CreatedAt = 5\<rparr>], reads_ok = True, writes_ok = True\<rparr>,
       rewardsCacheOrg = Map.empty, rewardsCacheDev = Map.empty, baseAttoFILReward = 100\<rparr>
      \<lparr>lc_OrgKeyFilter = ''org1'', lc_ClaimedByFilter = '''', lc_Ascending = False, lc_StartAt = None, lc_Limit = 1\<rparr>) None = Some [\<lparr>pbc_OrgKey = ''org1'', pbc_ClaimedBy = ''alice'', pbc_Amount = 10, pbc_CreatedAt = 5\<rparr>] \<and>
   ListClaims \<lparr>db = \<lparr>rewardsCol = [],
       claimsCol = [\<lparr>c_OrgKey = ''org1'', c_ClaimedBy = ''alice'', c_Amount = 10, c_CreatedAt = 5\<rparr>, \<lparr>c_OrgKey = ''org1'', c_ClaimedBy = ''alice'', c_Amount = 10, c_CreatedAt = 5\<rparr>], reads_ok = True, writes_ok = True\<rparr>,
       rewardsCacheOrg = Map.empty, rewardsCacheDev = Map.empty, baseAttoFILReward = 100\<rparr>
      (\<lparr>lc_OrgKeyFilter = ''org1'', lc_ClaimedByFilter = '''', lc_Ascending = False, lc_StartAt = None, lc_Limit = 1\<rparr>\<lparr>lc_Limit := 0\<rparr>) =
     Inr \<lparr>lc_Claims = [\<lparr>pbc_OrgKey = ''org1'', pbc_ClaimedBy = ''alice'', pbc_Amount = 10, pbc_CreatedAt = 5\<rparr>, \<lparr>pbc_OrgKey = ''org1'', pbc_ClaimedBy = ''alice'', pbc_Amount = 10, pbc_CreatedAt = 5\<rparr>], lc_More = False, lc_MoreStartAt = None\<rparr> \<and>
   ListClaims \<lparr>db = \<lparr>rewardsCol = [],
       claimsCol = [\<lparr>c_OrgKey = ''org1'', c_ClaimedBy = ''alice'', c_Amount = 10, c_CreatedAt = 1\<rparr>, \<lparr>c_OrgKey = ''org1'', c_ClaimedBy = ''alice'', c_Amount = 20, c_CreatedAt = 2\<rparr>], reads_ok = True, writes_ok = True\<rparr>,
       rewardsCacheOrg = Map.empty, rewardsCacheDev = Map.empty, baseAttoFILReward = 100\<rparr>
      \<lparr>lc_OrgKeyFilter = ''org1'', lc_ClaimedByFilter = '''', lc_Ascending = True, lc_StartAt = None, lc_Limit = 1\<rparr> =
     Inr \<lparr>lc_Claims = [\<lparr>pbc_OrgKey = ''org1'', pbc_ClaimedBy = ''alice'', pbc_Amount = 10, pbc_CreatedAt = 1\<rparr>], lc_More = False, lc_MoreStartAt = None\<rparr> \<and>
   follow_pages 3 (ListClaims_page \<lparr>db = \<lparr>rewardsCol = [],
       claimsCol = [\<lparr>c_OrgKey = ''org1'', c_ClaimedBy = ''alice'', c_Amount = 10, c_CreatedAt = 1\<rparr>, \<lparr>c_OrgKey = ''org1'', c_ClaimedBy = ''alice'', c_Amount = 20, c_CreatedAt = 2\<rparr>], reads_ok = True, writes_ok = True\<rparr>,
       rewardsCacheOrg = Map.empty, rewardsCacheDev = Map.empty, baseAttoFILReward = 100\<rparr>
      \<lparr>lc_OrgKeyFilter = ''org1'', lc_ClaimedByFilter = '''', lc_Ascending = True, lc_StartAt = None, lc_Limit = 1\<rparr>) None = Some [\<lparr>pbc_OrgKey = ''org1'', pbc_ClaimedBy = ''alice'', pbc_Amount = 10, pbc_CreatedAt = 1\<rparr>] \<and>
   ListClaims \<lparr>db = \<lparr>rewardsCol = [],
       claimsCol = [\<lparr>c_OrgKey = ''org1'', c_ClaimedBy = ''alice'', c_Amount = 10, c_CreatedAt = 1\<rparr>, \<lparr>c_OrgKey = ''org1'', c_ClaimedBy = ''alice'', c_Amount = 20, c_CreatedAt = 2\<rparr>], reads_ok = True, writes_ok = True\<rparr>,
       rewardsCacheOrg = Map.empty, rewardsCacheDev = Map.empty, baseAttoFILReward = 100\<rparr>
      (\<lparr>lc_OrgKeyFilter = ''org1'', lc_ClaimedByFilter = '''', lc_Ascending = True, lc_StartAt = None, lc_Limit = 1\<rparr>\<lparr>lc_Limit := 0\<rparr>) =
     Inr \<lparr>lc_Claims = [\<lparr>pbc_OrgKey = ''org1'', pbc_ClaimedBy = ''alice'', pbc_Amount = 10, pbc_CreatedAt = 1\<rparr>, \<lparr>pbc_OrgKey = ''org1'', pbc_ClaimedBy = ''alice'', pbc_Amount = 20, pbc_CreatedAt = 2\<rparr>], lc_More = True, lc_MoreStartAt = Some 2\<rparr>"
  by (simp add: eval_nat_numeral ListClaims_page_def ListClaims_def Let_def mongo_Find_def
      mongo_sort_def mongo_FindOne_def claim_matches_def toPbClaim_def)

text \<open>
  Claim C5, amended. Take a filter over either ledger and a request that is descending
  or carries a starting cursor. Then \<open>hasMore\<close> is true exactly when the page is not
  empty and a record matching the filter lies strictly beyond the last item of the page
  in the requested direction. If moreover the records matching the filter have pairwise
  distinct creation times, then concatenating the pages obtained by starting at the
  cursor of the request (no cursor, for a descending listing from the top) and passing
  back the returned cursor until \<open>hasMore\<close> is false yields exactly the records, in
  the same order, of one unbounded query (limit 0) with that filter, direction and
  cursor; a number of requests above the size of the collection suffices.
\<close>

theorem pagination_round_trip:
  "(reads_ok (db s) \<and> (lr_Ascending rq \<longrightarrow> lr_StartAt rq \<noteq> None) \<longrightarrow>
      (\<exists>resp. ListRewards s rq = Inr resp \<and>
         (lr_More resp \<longleftrightarrow>
            lr_Rewards resp \<noteq> [] \<and>
            (\<exists>r \<in> set (rewardsCol (db s)). reward_matches (rewards_request_filter rq) r \<and>
               beyond (lr_Ascending rq) (pbr_CreatedAt (last (lr_Rewards resp))) (r_CreatedAt r)))) \<and>
      (distinct (map r_CreatedAt
          (filter (reward_matches (rewards_request_filter rq)) (rewardsCol (db s)))) \<and>
       length (rewardsCol (db s)) < fuel \<longrightarrow>
         (\<exists>resp. ListRewards s (rq\<lparr>lr_Limit := 0\<rparr>) = Inr resp \<and>
            follow_pages fuel (ListRewards_page s rq) (lr_StartAt rq) = Some (lr_Rewards resp)))) \<and>
   (reads_ok (db s) \<and> (lc_Ascending cq \<longrightarrow> lc_StartAt cq \<noteq> None) \<longrightarrow>
      (\<exists>resp. ListClaims s cq = Inr resp \<and>
         (lc_More resp \<longleftrightarrow>
            lc_Claims resp \<noteq> [] \<and>
            (\<exists>c \<in> set (claimsCol (db s)). claim_matches (claims_request_filter cq) c \<and>
               beyond (lc_Ascending cq) (pbc_CreatedAt (last (lc_Claims resp))) (c_CreatedAt c)))) \<and>
      (distinct (map c_CreatedAt
          (filter (claim_matches (claims_request_filter cq)) (claimsCol (db s)))) \<and>
       length (claimsCol (db s)) < fuel \<longrightarrow>
         (\<exists>resp. ListClaims s (cq\<lparr>lc_Limit := 0\<rparr>) = Inr resp \<and>
            follow_pages fuel (ListClaims_page s cq) (lc_StartAt cq) = Some (lc_Claims resp))))"
  using ListRewards_has_more [of s rq] ListRewards_round_trip [of s rq fuel]
    ListClaims_has_more [of s cq] ListClaims_round_trip [of s cq fuel]
  by blast

text \<open>
  The theorem at six rewards, five of them of \<open>org1\<close>, listed for \<open>org1\<close> descending
  with limit 2 from the top, and at three claims listed ascending with limit 1 from the
  cursor 1.
\<close>

theorem pagination_round_trip_witness:
  "map_option (map pbr_CreatedAt)
     (follow_pages 7 (ListRewards_page \<lparr>db = \<lparr>rewardsCol = [\<lparr>r_OrgKey = ''org1'', r_DevKey = ''dev1'', r_Type = REWARD_TYPE_FIRST_KEY_USER_CREATED, r_Factor = 1, r_BaseAttoFILReward = 100, r_CreatedAt = 1\<rparr>,
        \<lparr>r_OrgKey = ''org1'', r_DevKey = ''dev1'', r_Type = REWARD_TYPE_INITIAL_BILLING_SETUP, r_Factor = 1, r_BaseAttoFILReward = 100, r_CreatedAt = 2\<rparr>,
        \<lparr>r_OrgKey = ''org2'', r_DevKey = ''dev2'', r_Type = REWARD_TYPE_FIRST_MAILBOX_CREATED, r_Factor = 1, r_BaseAttoFILReward = 100, r_CreatedAt = 3\<rparr>,
        \<lparr>r_OrgKey = ''org1'', r_DevKey = ''dev1'', r_Type = REWARD_TYPE_FIRST_MAILBOX_CREATED, r_Factor = 1, r_BaseAttoFILReward = 100, r_CreatedAt = 4\<rparr>,
        \<lparr>r_OrgKey = ''org1'', r_DevKey = ''dev1'', r_Type = REWARD_TYPE_FIRST_THREAD_DB_CREATED, r_Factor = 1, r_BaseAttoFILReward = 100, r_CreatedAt = 5\<rparr>,
        \<lparr>r_OrgKey = ''org1'', r_DevKey = ''dev1'', r_Type = REWARD_TYPE_FIRST_BUCKET_CREATED, r_Factor = 1, r_BaseAttoFILReward = 100, r_CreatedAt = 6\<rparr>],
       claimsCol = [\<lparr>c_OrgKey = ''org1'', c_ClaimedBy = ''alice'', c_Amount = 10, c_CreatedAt = 1\<rparr>, \<lparr>c_OrgKey = ''org1'', c_ClaimedBy = ''alice'', c_Amount = 20, c_CreatedAt = 2\<rparr>, \<lparr>c_OrgKey = ''org1'', c_ClaimedBy = ''alice'', c_Amount = 30, c_CreatedAt = 3\<rparr>], reads_ok = True, writes_ok = True\<rparr>,
       rewardsCacheOrg = Map.empty, rewardsCacheDev = Map.empty, baseAttoFILReward = 100\<rparr>
        \<lparr>lr_OrgKeyFilter = ''org1'', lr_DevKeyFilter = '''', lr_RewardTypeFilter = REWARD_TYPE_UNSPECIFIED, lr_Ascending = False, lr_StartAt = None, lr_Limit = 2\<rparr>) None) = Some [6, 5, 4, 2, 1] \<and>
   map_option (map pbc_CreatedAt)
     (follow_pages 7 (ListClaims_page \<lparr>db = \<lparr>rewardsCol = [\<lparr>r_OrgKey = ''org1'', r_DevKey = ''dev1'', r_Type = REWARD_TYPE_FIRST_KEY_USER_CREATED, r_Factor = 1, r_BaseAttoFILReward = 100, r_CreatedAt = 1\<rparr>,
        \<lparr>r_OrgKey = ''org1'', r_DevKey = ''dev1'', r_Type = REWARD_TYPE_INITIAL_BILLING_SETUP, r_Factor = 1, r_BaseAttoFILReward = 100, r_CreatedAt = 2\<rparr>,
        \<lparr>r_OrgKey = ''org2'', r_DevKey = ''dev2'', r_Type = REWARD_TYPE_FIRST_MAILBOX_CREATED, r_Factor = 1, r_BaseAttoFILReward = 100, r_CreatedAt = 3\<rparr>,
        \<lparr>r_OrgKey = ''org1'', r_DevKey = ''dev1'', r_Type = REWARD_TYPE_FIRST_MAILBOX_CREATED, r_Factor = 1, r_BaseAttoFILReward = 100, r_CreatedAt = 4\<rparr>,
        \<lparr>r_OrgKey = ''org1'', r_DevKey = ''dev1'', r_Type = REWARD_TYPE_FIRST_THREAD_DB_CREATED, r_Factor = 1, r_BaseAttoFILReward = 100, r_CreatedAt = 5\<rparr>,
        \<lparr>r_OrgKey = ''org1'', r_DevKey = ''dev1'', r_Type = REWARD_TYPE_FIRST_BUCKET_CREATED, r_Factor = 1, r_BaseAttoFILReward = 100, r_CreatedAt = 6\<rparr>],
       claimsCol = [\<lparr>c_OrgKey = ''org1'', c_ClaimedBy = ''alice'', c_Amount = 10, c_CreatedAt = 1\<rparr>, \<lparr>c_OrgKey = ''org1'', c_ClaimedBy = ''alice'', c_Amount = 20, c_CreatedAt = 2\<rparr>, \<lparr>c_OrgKey = ''org1'', c_ClaimedBy = ''alice'', c_Amount = 30, c_CreatedAt = 3\<rparr>], reads_ok = True, writes_ok = True\<rparr>,
       rewardsCacheOrg = Map.empty, rewardsCacheDev = Map.empty, baseAttoFILReward = 100\<rparr>
        \<lparr>lc_OrgKeyFilter = '''', lc_ClaimedByFilter = ''alice'', lc_Ascending = True, lc_StartAt = Some 1, lc_Limit = 1\<rparr>) (Some 1)) = Some [2, 3]"
proof -
  let ?s = "\<lparr>db = \<lparr>rewardsCol = [\<lparr>r_OrgKey = ''org1'', r_DevKey = ''dev1'', r_Type = REWARD_TYPE_FIRST_KEY_USER_CREATED, r_Factor = 1, r_BaseAttoFILReward = 100, r_CreatedAt = 1\<rparr>,
        \<lparr>r_OrgKey = ''org1'', r_DevKey = ''dev1'', r_Type = REWARD_TYPE_INITIAL_BILLING_SETUP, r_Factor = 1, r_BaseAttoFILReward = 100, r_CreatedAt = 2\<rparr>,
        \<lparr>r_OrgKey = ''org2'', r_DevKey = ''dev2'', r_Type = REWARD_TYPE_FIRST_MAILBOX_CREATED, r_Factor = 1, r_BaseAttoFILReward = 100, r_CreatedAt = 3\<rparr>,
        \<lparr>r_OrgKey = ''org1'', r_DevKey = ''dev1'', r_Type = REWARD_TYPE_FIRST_MAILBOX_CREATED, r_Factor = 1, r_BaseAttoFILReward = 100, r_CreatedAt = 4\<rparr>,
        \<lparr>r_OrgKey = ''org1'', r_DevKey = ''dev1'', r_Type = REWARD_TYPE_FIRST_THREAD_DB_CREATED, r_Factor = 1, r_BaseAttoFILReward = 100, r_CreatedAt = 5\<rparr>,
        \<lparr>r_OrgKey = ''org1'', r_DevKey = ''dev1'', r_Type = REWARD_TYPE_FIRST_BUCKET_CREATED, r_Factor = 1, r_BaseAttoFILReward = 100, r_CreatedAt = 6\<rparr>],
       claimsCol = [\<lparr>c_OrgKey = ''org1'', c_ClaimedBy = ''alice'', c_Amount = 10, c_CreatedAt = 1\<rparr>, \<lparr>c_OrgKey = ''org1'', c_ClaimedBy = ''alice'', c_Amount = 20, c_CreatedAt = 2\<rparr>, \<lparr>c_OrgKey = ''org1'', c_ClaimedBy = ''alice'', c_Amount = 30, c_CreatedAt = 3\<rparr>], reads_ok = True, writes_ok = True\<rparr>,
       rewardsCacheOrg = Map.empty, rewardsCacheDev = Map.empty, baseAttoFILReward = 100\<rparr>"
  let ?rq = "\<lparr>lr_OrgKeyFilter = ''org1'', lr_DevKeyFilter = '''', lr_RewardTypeFilter = REWARD_TYPE_UNSPECIFIED, lr_Ascending = False, lr_StartAt = None, lr_Limit = 2\<rparr>"
  let ?cq = "\<lparr>lc_OrgKeyFilter = '''', lc_ClaimedByFilter = ''alice'', lc_Ascending = True, lc_StartAt = Some 1, lc_Limit = 1\<rparr>"
  have r: "case ListRewards ?s (?rq\<lparr>lr_Limit := 0\<rparr>) of
             Inl e \<Rightarrow> False
           | Inr resp \<Rightarrow> map pbr_CreatedAt (lr_Rewards resp) = [6, 5, 4, 2, 1]"
    by (simp add: ListRewards_def Let_def mongo_Find_def mongo_sort_def mongo_FindOne_def
        reward_matches_def toPbReward_def)
  have c: "case ListClaims ?s (?cq\<lparr>lc_Limit := 0\<rparr>) of
             Inl e \<Rightarrow> False
           | Inr resp \<Rightarrow> map pbc_CreatedAt (lc_Claims resp) = [2, 3]"
    by (simp add: ListClaims_def Let_def mongo_Find_def mongo_sort_def mongo_FindOne_def
        claim_matches_def toPbClaim_def)
  have dr: "distinct (map r_CreatedAt
              (filter (reward_matches (rewards_request_filter ?rq)) (rewardsCol (db ?s))))"
    by (simp add: reward_matches_def rewards_request_filter_def)
  have dc: "distinct (map c_CreatedAt
              (filter (claim_matches (claims_request_filter ?cq)) (claimsCol (db ?s))))"
    by (simp add: claim_matches_def claims_request_filter_def)
  have ar: "reads_ok (db ?s) \<and> (lr_Ascending ?rq \<longrightarrow> lr_StartAt ?rq \<noteq> None)" by simp
  have ac: "reads_ok (db ?s) \<and> (lc_Ascending ?cq \<longrightarrow> lc_StartAt ?cq \<noteq> None)" by simp
  have lr: "distinct (map r_CreatedAt
              (filter (reward_matches (rewards_request_filter ?rq)) (rewardsCol (db ?s)))) \<and>
            length (rewardsCol (db ?s)) < 7"
    by (rule conjI [OF dr]) simp
  have lc: "distinct (map c_CreatedAt
              (filter (claim_matches (claims_request_filter ?cq)) (claimsCol (db ?s)))) \<and>
            length (claimsCol (db ?s)) < 7"
    by (rule conjI [OF dc]) simp
  note T = pagination_round_trip [of ?s ?rq 7 ?cq]
  from T [THEN conjunct1, THEN mp, OF ar, THEN conjunct2, THEN mp, OF lr]
  obtain resp where e1: "ListRewards ?s (?rq\<lparr>lr_Limit := 0\<rparr>) = Inr resp"
    and e2: "follow_pages 7 (ListRewards_page ?s ?rq) (lr_StartAt ?rq) = Some (lr_Rewards resp)"
    by blast
  have 1: "map_option (map pbr_CreatedAt) (follow_pages 7 (ListRewards_page ?s ?rq) None)
                 = Some [6, 5, 4, 2, 1]"
    using r e1 e2 by simp
  from T [THEN conjunct2, THEN mp, OF ac, THEN conjunct2, THEN mp, OF lc]
  obtain resp' where e3: "ListClaims ?s (?cq\<lparr>lc_Limit := 0\<rparr>) = Inr resp'"
    and e4: "follow_pages 7 (ListClaims_page ?s ?cq) (lc_StartAt ?cq) = Some (lc_Claims resp')"
    by blast
  have 2: "map_option (map pbc_CreatedAt) (follow_pages 7 (ListClaims_page ?s ?cq) (Some 1))
                 = Some [2, 3]"
    using c e3 e4 by simp
  show ?thesis using 1 2 by simp
qed

end
